theory Spec2Isabelle
  imports Complex_Main
begin

section \<open>Offline exam analyzer (src/offline\_processor.py)\<close>

text \<open>
  A shallow embedding of \<^verbatim>\<open>OfflineExamAnalyzer\<close>. The detectors, the audio analyzer, the
  scoring functions and OpenCV are not part of the file; they are parameters of the model.
  Python floats are modelled as reals, Python strings as \<^typ>\<open>string\<close>.
\<close>

subsection \<open>Python values and exceptions\<close>

text \<open>
  What a detector may hand back. The analyzer tests these values with
  \<^verbatim>\<open>isinstance\<close>, truthiness, tuple unpacking and comparison with a string.
\<close>

datatype pyval =
    PyNone
  | PyBool bool
  | PyInt int
  | PyStr string
  | PyList "pyval list"
  | PyTuple "pyval list"
  | PyDict "(string \<times> pyval) list"

datatype exn =
    RuntimeError string
  | TypeError string
  | ValueError string
  | ZeroDivisionError
  | Raised string

text \<open>Truthiness, as \<^verbatim>\<open>not v\<close> and \<^verbatim>\<open>if v\<close> read it.\<close>

fun truthy :: "pyval \<Rightarrow> bool" where
  "truthy PyNone = False"
| "truthy (PyBool b) = b"
| "truthy (PyInt i) = (i \<noteq> 0)"
| "truthy (PyStr s) = (s \<noteq> [])"
| "truthy (PyList xs) = (xs \<noteq> [])"
| "truthy (PyTuple xs) = (xs \<noteq> [])"
| "truthy (PyDict kvs) = (kvs \<noteq> [])"

text \<open>\<^verbatim>\<open>isinstance(v, int)\<close>: a Python bool is an int.\<close>

fun isinstance_int :: "pyval \<Rightarrow> bool" where
  "isinstance_int (PyInt i) = True"
| "isinstance_int (PyBool b) = True"
| "isinstance_int v = False"

text \<open>\<^verbatim>\<open>v > 1\<close> for a value that passed \<^verbatim>\<open>isinstance(v, int)\<close> (True is 1, False is 0).\<close>

fun int_value :: "pyval \<Rightarrow> int" where
  "int_value (PyInt i) = i"
| "int_value (PyBool b) = (if b then 1 else 0)"
| "int_value v = 1"

text \<open>
  \<^verbatim>\<open>a, _ = v\<close>: the value must be an iterable of exactly two items; the first is kept.
\<close>

fun unpack_pair :: "pyval list \<Rightarrow> exn + pyval" where
  "unpack_pair [a, b] = Inr a"
| "unpack_pair xs = Inl (ValueError ''wrong number of values to unpack'')"

fun unpack_first_of_two :: "pyval \<Rightarrow> exn + pyval" where
  "unpack_first_of_two (PyTuple xs) = unpack_pair xs"
| "unpack_first_of_two (PyList xs) = unpack_pair xs"
| "unpack_first_of_two (PyStr s) = unpack_pair (map (\<lambda>c. PyStr [c]) s)"
| "unpack_first_of_two (PyDict kvs) = unpack_pair (map (\<lambda>kv. PyStr (fst kv)) kvs)"
| "unpack_first_of_two v = Inl (TypeError ''cannot unpack non-iterable object'')"

definition py_mod :: "nat \<Rightarrow> nat \<Rightarrow> exn + nat" where
  "py_mod a b = (if b = 0 then Inl ZeroDivisionError else Inr (a mod b))"

subsection \<open>Decimal rendering of a frame index\<close>

definition digit_char :: "nat \<Rightarrow> char" where
  "digit_char d = char_of (48 + d)"

function str_nat :: "nat \<Rightarrow> string" where
  "str_nat n = (if n < 10 then [digit_char n] else str_nat (n div 10) @ [digit_char (n mod 10)])"
  by pat_completeness auto
termination
  by (relation "measure (\<lambda>n. n)") auto

declare str_nat.simps [simp del]

subsection \<open>Data model\<close>

record alert_event =
  session_id :: string
  timestamp :: real
  frame_index :: nat
  alert_type :: string
  severity :: string
  image_path :: "string option"
  details :: pyval

record session_summary =
  summary_session_id :: string
  duration_seconds :: real
  num_frames :: nat
  fps :: real
  alerts :: "alert_event list"

record score_triple =
  video :: real
  audio :: real
  overall :: real

text \<open>The JSON document that \<^verbatim>\<open>_save_session_log\<close> dumps.\<close>

record session_log =
  log_session :: session_summary
  log_verdict :: string
  log_alerts :: "alert_event list"
  log_scores :: score_triple
  log_audio :: pyval
  generated_at :: string

subsection \<open>The file system\<close>

text \<open>
  Directories that exist and files with their contents. Creating a directory and writing a
  file are taken to succeed, and a directory is recorded under its own path only (the
  parents that \<^verbatim>\<open>mkdir(parents=True)\<close> would create are not). Paths are strings;
  \<^verbatim>\<open>dir / name\<close> is modelled for a relative \<^verbatim>\<open>name\<close> without the normalisation of
  \<^verbatim>\<open>pathlib\<close>.
\<close>

datatype 'f content = Image 'f | SessionLog session_log

record 'f filesystem =
  dirs :: "string set"
  files :: "string \<rightharpoonup> 'f content"

definition path_join :: "string \<Rightarrow> string \<Rightarrow> string" where
  "path_join d name = d @ ''/'' @ name"

definition mkdir :: "string \<Rightarrow> 'f filesystem \<Rightarrow> 'f filesystem" where
  "mkdir p fs = fs\<lparr>dirs := insert p (dirs fs)\<rparr>"

definition write_file :: "string \<Rightarrow> 'f content \<Rightarrow> 'f filesystem \<Rightarrow> 'f filesystem" where
  "write_file p c fs = fs\<lparr>files := (files fs)(p \<mapsto> c)\<rparr>"

subsection \<open>Scoring functions and the verdict\<close>

text \<open>
  \<^verbatim>\<open>analysis/scoring.py\<close> is not among the sources: the three scoring functions are
  parameters. \<^verbatim>\<open>compute_video_score\<close> receives the total, the counts by type and the
  alert list.
\<close>

record scoring =
  compute_video_score :: "nat \<Rightarrow> (string \<times> nat) list \<Rightarrow> alert_event list \<Rightarrow> real"
  compute_audio_score :: "pyval \<Rightarrow> real"
  compute_overall_score :: "real \<Rightarrow> real \<Rightarrow> real"

text \<open>\<^verbatim>\<open>collections.Counter\<close> over an iterable, keys in order of first occurrence.\<close>

fun counter_add :: "string \<Rightarrow> (string \<times> nat) list \<Rightarrow> (string \<times> nat) list" where
  "counter_add k [] = [(k, 1)]"
| "counter_add k ((k', n) # kvs) =
     (if k = k' then (k', n + 1) # kvs else (k', n) # counter_add k kvs)"

definition Counter :: "string list \<Rightarrow> (string \<times> nat) list" where
  "Counter ks = foldl (\<lambda>c k. counter_add k c) [] ks"

text \<open>\<^verbatim>\<open>counts.get(k, 0)\<close>\<close>

definition counts_get :: "(string \<times> nat) list \<Rightarrow> string \<Rightarrow> nat" where
  "counts_get counts k = (case map_of counts k of None \<Rightarrow> 0 | Some n \<Rightarrow> n)"

text \<open>Lines 267 to 271 of \<^verbatim>\<open>_save_session_log\<close>.\<close>

definition compute_verdict :: "(string \<times> nat) list \<Rightarrow> real \<Rightarrow> alert_event list \<Rightarrow> string" where
  "compute_verdict counts overall_score alerts_list =
     (if counts_get counts ''MULTI_FACE'' > 0 \<or> counts_get counts ''OBJECT_DETECTED'' > 0
      then ''CHEATING''
      else if overall_score < 0.7 \<or> length alerts_list > 5
      then ''SUSPICIOUS''
      else ''CLEAN'')"

definition save_session_log ::
  "scoring \<Rightarrow> string \<Rightarrow> string \<Rightarrow> session_summary \<Rightarrow> pyval \<Rightarrow> 'f filesystem \<Rightarrow> 'f filesystem"
where
  "save_session_log sc now_iso logs_dir summary audio_summary fs =
     (let out = path_join logs_dir (summary_session_id summary @ ''.json'');
          alerts_list = alerts summary;
          counts = Counter (map alert_type alerts_list);
          video_score = compute_video_score sc (length alerts_list) counts alerts_list;
          audio_score = compute_audio_score sc audio_summary;
          overall_score = compute_overall_score sc video_score audio_score;
          verdict = compute_verdict counts overall_score alerts_list
      in write_file out
           (SessionLog \<lparr>log_session = summary, log_verdict = verdict, log_alerts = alerts_list,
              log_scores = \<lparr>video = video_score, audio = audio_score, overall = overall_score\<rparr>,
              log_audio = audio_summary, generated_at = now_iso\<rparr>) fs)"

text \<open>The verdict policy in the words of the specification, for comparison.\<close>

definition verdict_policy :: "alert_event list \<Rightarrow> real \<Rightarrow> string" where
  "verdict_policy alerts_list overall_score =
     (if (\<exists>a \<in> set alerts_list. alert_type a = ''MULTI_FACE'' \<or> alert_type a = ''OBJECT_DETECTED'')
      then ''CHEATING''
      else if overall_score < 7 / 10 \<or> 5 < length alerts_list
      then ''SUSPICIOUS''
      else ''CLEAN'')"

subsection \<open>The analyzer\<close>

text \<open>
  A detector is a function of the frame that returns a Python value or raises; a detector
  disabled in the configuration is \<open>None\<close>.
\<close>

type_synonym 'f detector = "'f \<Rightarrow> exn + pyval"

record 'f detectors =
  face_detector :: "'f detector option"
  eye_tracker :: "'f detector option"
  mouth_monitor :: "'f detector option"
  multi_face_detector :: "'f detector option"
  object_detector :: "'f detector option"

record 'f analyzer = "'f detectors" +
  logs_dir :: string
  evidence_root :: string
  audio_enabled :: bool
  speaker_analyzer :: "string option"
  gaze_away_frames :: nat
  mouth_moving_frames :: nat
  multi_face_frames :: nat

text \<open>The module constants of the PERFORMANCE section.\<close>

record perf =
  FRAME_STRIDE :: nat
  RESIZE_WIDTH :: nat
  OBJ_DETECT_EVERY :: nat
  MF_DETECT_EVERY :: nat

definition module_constants :: perf where
  "module_constants =
     \<lparr>FRAME_STRIDE = 5, RESIZE_WIDTH = 480, OBJ_DETECT_EVERY = 10, MF_DETECT_EVERY = 4\<rparr>"

text \<open>
  An opened \<^verbatim>\<open>cv2.VideoCapture\<close>: the frame rate it reports and the frames that
  \<^verbatim>\<open>read\<close> will decode before it returns false.
\<close>

record 'f capture =
  CAP_PROP_FPS :: real
  stream :: "'f list"

text \<open>
  Everything outside the file: the constants, OpenCV (\<open>VideoCapture\<close> is \<open>None\<close> when
  \<^verbatim>\<open>isOpened\<close> is false), the audio analyzer, the scoring functions, \<^verbatim>\<open>Path.stem\<close>
  and the two readings of the clock.
\<close>

record 'f env =
  K :: perf
  VideoCapture :: "string \<Rightarrow> 'f capture option"
  frame_height :: "'f \<Rightarrow> nat"
  frame_width :: "'f \<Rightarrow> nat"
  resize :: "'f \<Rightarrow> nat \<Rightarrow> nat \<Rightarrow> 'f"
  speaker_analyze :: "string \<Rightarrow> string \<Rightarrow> exn + pyval"
  scores :: scoring
  stem :: "string \<Rightarrow> string"
  now_stamp :: string
  now_iso :: string

definition OfflineExamAnalyzer_init ::
  "'f detectors \<Rightarrow> bool \<Rightarrow> string \<Rightarrow> 'f filesystem \<Rightarrow> 'f analyzer \<times> 'f filesystem"
where
  "OfflineExamAnalyzer_init det audio_on logs fs =
     (let fs = mkdir logs fs;
          root = path_join logs ''evidence'';
          fs = mkdir root fs
      in (\<lparr>face_detector = face_detector det, eye_tracker = eye_tracker det,
            mouth_monitor = mouth_monitor det, multi_face_detector = multi_face_detector det,
            object_detector = object_detector det,
            logs_dir = logs, evidence_root = root, audio_enabled = audio_on,
            speaker_analyzer = None,
            gaze_away_frames = 0, mouth_moving_frames = 0, multi_face_frames = 0\<rparr>, fs))"

subsection \<open>Alert generation\<close>

text \<open>The eleven arguments of one call of \<^verbatim>\<open>_generate_alerts\<close>.\<close>

record 'f gen_args =
  arg_session_id :: string
  arg_frame_idx :: nat
  arg_t :: real
  arg_frame :: 'f
  arg_evidence_dir :: string
  face_present :: pyval
  gaze_direction :: pyval
  mouth_moving :: pyval
  multiple_faces :: bool
  num_faces :: pyval
  object_list :: "pyval list"

definition evidence_name :: "string \<Rightarrow> nat \<Rightarrow> string" where
  "evidence_name tag frame_idx = tag @ ''_'' @ str_nat frame_idx @ ''.jpg''"

definition save_evidence :: "'f gen_args \<Rightarrow> string \<Rightarrow> 'f filesystem \<Rightarrow> string \<times> 'f filesystem" where
  "save_evidence a tag fs =
     (let path = path_join (arg_evidence_dir a) (evidence_name tag (arg_frame_idx a))
      in (path, write_file path (Image (arg_frame a)) fs))"

definition AlertEvent :: "'f gen_args \<Rightarrow> string \<Rightarrow> string \<Rightarrow> string \<Rightarrow> pyval \<Rightarrow> alert_event" where
  "AlertEvent a ty sev path det =
     \<lparr>session_id = arg_session_id a, timestamp = arg_t a, frame_index = arg_frame_idx a,
      alert_type = ty, severity = sev, image_path = Some path, details = det\<rparr>"

type_synonym 'f gen_state = "alert_event list \<times> 'f analyzer \<times> 'f filesystem"

text \<open>Lines 204 to 208.\<close>

definition face_block :: "'f gen_args \<Rightarrow> 'f gen_state \<Rightarrow> 'f gen_state" where
  "face_block a = (\<lambda>(alerts, self, fs).
     if \<not> truthy (face_present a)
     then (let (path, fs) = save_evidence a ''face_missing'' fs
           in (alerts @ [AlertEvent a ''FACE_MISSING'' ''medium'' path (PyDict [])], self, fs))
     else (alerts, self, fs))"

text \<open>Lines 210 to 220.\<close>

definition gaze_block :: "'f gen_args \<Rightarrow> 'f gen_state \<Rightarrow> 'f gen_state" where
  "gaze_block a = (\<lambda>(alerts, self, fs).
     let self = (if gaze_direction a \<noteq> PyStr ''center''
                 then self\<lparr>gaze_away_frames := gaze_away_frames self + 1\<rparr>
                 else self\<lparr>gaze_away_frames := 0\<rparr>)
     in if gaze_away_frames self \<ge> 3
        then (let (path, fs) = save_evidence a ''gaze_away'' fs
              in (alerts @ [AlertEvent a ''GAZE_AWAY'' ''medium'' path (PyDict [])],
                  self\<lparr>gaze_away_frames := 0\<rparr>, fs))
        else (alerts, self, fs))"

text \<open>Lines 222 to 232.\<close>

definition mouth_block :: "'f gen_args \<Rightarrow> 'f gen_state \<Rightarrow> 'f gen_state" where
  "mouth_block a = (\<lambda>(alerts, self, fs).
     let self = (if truthy (mouth_moving a)
                 then self\<lparr>mouth_moving_frames := mouth_moving_frames self + 1\<rparr>
                 else self\<lparr>mouth_moving_frames := 0\<rparr>)
     in if mouth_moving_frames self \<ge> 3
        then (let (path, fs) = save_evidence a ''mouth'' fs
              in (alerts @ [AlertEvent a ''MOUTH_MOVEMENT'' ''medium'' path (PyDict [])],
                  self\<lparr>mouth_moving_frames := 0\<rparr>, fs))
        else (alerts, self, fs))"

text \<open>Lines 234 to 244.\<close>

definition multi_face_block :: "'f gen_args \<Rightarrow> 'f gen_state \<Rightarrow> 'f gen_state" where
  "multi_face_block a = (\<lambda>(alerts, self, fs).
     let self = (if multiple_faces a
                 then self\<lparr>multi_face_frames := multi_face_frames self + 1\<rparr>
                 else self\<lparr>multi_face_frames := 0\<rparr>)
     in if multi_face_frames self \<ge> 5
        then (let (path, fs) = save_evidence a ''multi_face'' fs
              in (alerts @ [AlertEvent a ''MULTI_FACE'' ''high'' path
                              (PyDict [(''num_faces'', num_faces a)])],
                  self\<lparr>multi_face_frames := 0\<rparr>, fs))
        else (alerts, self, fs))"

text \<open>Lines 246 to 250: one alert for each item of the object list.\<close>

definition object_alert :: "'f gen_args \<Rightarrow> 'f gen_state \<Rightarrow> pyval \<Rightarrow> 'f gen_state" where
  "object_alert a = (\<lambda>(alerts, self, fs) obj.
     let (path, fs) = save_evidence a ''object'' fs
     in (alerts @ [AlertEvent a ''OBJECT_DETECTED'' ''high'' path obj], self, fs))"

definition objects_block :: "'f gen_args \<Rightarrow> 'f gen_state \<Rightarrow> 'f gen_state" where
  "objects_block a g = foldl (object_alert a) g (object_list a)"

definition generate_alerts :: "'f gen_args \<Rightarrow> 'f analyzer \<Rightarrow> 'f filesystem \<Rightarrow> 'f gen_state" where
  "generate_alerts a self fs =
     objects_block a (multi_face_block a (mouth_block a (gaze_block a
       (face_block a ([], self, fs)))))"

subsection \<open>The frame loop\<close>

text \<open>
  The local variables of \<^verbatim>\<open>analyze_video\<close> that the loop changes, the analyzer and the
  file system. \<open>submitted\<close> is a ghost variable: the arguments of every call of
  \<^verbatim>\<open>_generate_alerts\<close> so far, in order.
\<close>

record 'f loop_state =
  frame_idx :: nat
  processed_idx :: nat
  last_faces :: pyval
  last_multi :: bool
  last_objects :: "pyval list"
  loop_alerts :: "alert_event list"
  st_self :: "'f analyzer"
  st_fs :: "'f filesystem"
  submitted :: "'f gen_args list"

definition and_then :: "exn + 'a \<Rightarrow> ('a \<Rightarrow> exn + 'b) \<Rightarrow> exn + 'b" where
  "and_then r f = (case r of Inl e \<Rightarrow> Inl e | Inr v \<Rightarrow> f v)"

text \<open>
  Lines 120 to 122; the product with the scale is read over the reals, and
  \<^verbatim>\<open>cv2.resize\<close> is taken to return a frame.
\<close>

definition downscale :: "'f env \<Rightarrow> 'f \<Rightarrow> 'f" where
  "downscale E frame =
     (if frame_width E frame > RESIZE_WIDTH (K E)
      then (let scale = real (RESIZE_WIDTH (K E)) / real (frame_width E frame)
            in resize E frame (RESIZE_WIDTH (K E)) (nat \<lfloor>real (frame_height E frame) * scale\<rfloor>))
      else frame)"

text \<open>Line 124.\<close>

definition detect_face :: "'f analyzer \<Rightarrow> 'f \<Rightarrow> exn + pyval" where
  "detect_face self frame =
     (case face_detector self of Some d \<Rightarrow> d frame | None \<Rightarrow> Inr (PyBool True))"

text \<open>Lines 126 to 128.\<close>

definition track_eyes :: "'f analyzer \<Rightarrow> 'f \<Rightarrow> exn + pyval" where
  "track_eyes self frame =
     (case eye_tracker self of
        Some d \<Rightarrow> and_then (d frame) unpack_first_of_two
      | None \<Rightarrow> Inr (PyStr ''center''))"

text \<open>Line 130.\<close>

definition monitor_mouth :: "'f analyzer \<Rightarrow> 'f \<Rightarrow> exn + pyval" where
  "monitor_mouth self frame =
     (case mouth_monitor self of Some d \<Rightarrow> d frame | None \<Rightarrow> Inr (PyBool False))"

text \<open>Lines 133 to 136: the list is emptied first, on every processed frame.\<close>

definition detect_objects :: "'f env \<Rightarrow> 'f analyzer \<Rightarrow> nat \<Rightarrow> 'f \<Rightarrow> exn + pyval list" where
  "detect_objects E self processed frame =
     (let last_objects = [] in
      case object_detector self of
        None \<Rightarrow> Inr last_objects
      | Some d \<Rightarrow>
          and_then (py_mod processed (OBJ_DETECT_EVERY (K E))) (\<lambda>r.
            if r = 0
            then and_then (d frame) (\<lambda>res.
                   Inr (case res of PyList xs \<Rightarrow> xs | _ \<Rightarrow> []))
            else Inr last_objects))"

text \<open>Lines 139 to 142: the new values of \<^verbatim>\<open>last_faces\<close> and \<^verbatim>\<open>last_multi\<close>.\<close>

definition detect_multiple_faces ::
  "'f env \<Rightarrow> 'f analyzer \<Rightarrow> nat \<Rightarrow> 'f \<Rightarrow> pyval \<times> bool \<Rightarrow> exn + pyval \<times> bool"
where
  "detect_multiple_faces E self processed frame held =
     (case multi_face_detector self of
        None \<Rightarrow> Inr held
      | Some d \<Rightarrow>
          and_then (py_mod processed (MF_DETECT_EVERY (K E))) (\<lambda>r.
            if r = 0
            then and_then (d frame) (\<lambda>mf.
                   let faces = (if isinstance_int mf then mf else PyInt 1)
                   in Inr (faces, int_value faces > 1))
            else Inr held))"

text \<open>
  One iteration of the loop for a frame that \<^verbatim>\<open>cap.read()\<close> returned. An exception
  leaves the loop; until \<^verbatim>\<open>_generate_alerts\<close> runs nothing but local variables changes.
\<close>

definition process_frame ::
  "'f env \<Rightarrow> string \<Rightarrow> real \<Rightarrow> string \<Rightarrow> 'f \<Rightarrow> 'f loop_state \<Rightarrow> exn + 'f loop_state"
where
  "process_frame E sid rate evidence_dir raw s =
     and_then (py_mod (frame_idx s) (FRAME_STRIDE (K E))) (\<lambda>r.
       if r \<noteq> 0 then Inr (s\<lparr>frame_idx := frame_idx s + 1\<rparr>)
       else
         let t = real (frame_idx s) / rate;
             frame = downscale E raw
         in and_then (detect_face (st_self s) frame) (\<lambda>face.
            and_then (track_eyes (st_self s) frame) (\<lambda>gaze_dir.
            and_then (monitor_mouth (st_self s) frame) (\<lambda>mouth.
            and_then (detect_objects E (st_self s) (processed_idx s) frame) (\<lambda>objs.
            and_then (detect_multiple_faces E (st_self s) (processed_idx s) frame
                        (last_faces s, last_multi s)) (\<lambda>(faces, multi).
              let a = \<lparr>arg_session_id = sid, arg_frame_idx = frame_idx s, arg_t = t,
                       arg_frame = frame, arg_evidence_dir = evidence_dir,
                       face_present = face, gaze_direction = gaze_dir, mouth_moving = mouth,
                       multiple_faces = multi, num_faces = faces, object_list = objs\<rparr>;
                  (new_alerts, self, fs) = generate_alerts a (st_self s) (st_fs s)
              in Inr \<lparr>frame_idx = frame_idx s + 1, processed_idx = processed_idx s + 1,
                      last_faces = faces, last_multi = multi, last_objects = objs,
                      loop_alerts = loop_alerts s @ new_alerts,
                      st_self = self, st_fs = fs, submitted = submitted s @ [a]\<rparr>))))))"

fun frame_loop ::
  "'f env \<Rightarrow> string \<Rightarrow> real \<Rightarrow> string \<Rightarrow> 'f list \<Rightarrow> 'f loop_state \<Rightarrow> exn option \<times> 'f loop_state"
where
  "frame_loop E sid rate evidence_dir [] s = (None, s)"
| "frame_loop E sid rate evidence_dir (raw # rest) s =
     (case process_frame E sid rate evidence_dir raw s of
        Inl e \<Rightarrow> (Some e, s)
      | Inr s' \<Rightarrow> frame_loop E sid rate evidence_dir rest s')"

text \<open>Lines 101 to 107: the state in which the loop starts.\<close>

definition loop_init :: "'f analyzer \<Rightarrow> 'f filesystem \<Rightarrow> 'f loop_state" where
  "loop_init self fs =
     \<lparr>frame_idx = 0, processed_idx = 0, last_faces = PyInt 1, last_multi = False,
      last_objects = [], loop_alerts = [], st_self = self, st_fs = fs, submitted = []\<rparr>"

subsection \<open>One session\<close>

definition generate_session_id :: "'f env \<Rightarrow> string \<Rightarrow> string" where
  "generate_session_id E video_path = stem E video_path @ ''_'' @ now_stamp E"

text \<open>Line 91: \<^verbatim>\<open>session_id or self._generate_session_id(video_path)\<close>.\<close>

definition session_id_or :: "'f env \<Rightarrow> string option \<Rightarrow> string \<Rightarrow> string" where
  "session_id_or E session video_path =
     (case session of
        Some sid \<Rightarrow> if sid \<noteq> [] then sid else generate_session_id E video_path
      | None \<Rightarrow> generate_session_id E video_path)"

text \<open>
  \<^verbatim>\<open>analyze_video\<close> returns the summary or raises; either way the analyzer and the file
  system are left as the call changed them.
\<close>

type_synonym 'f outcome = "(exn + session_summary) \<times> 'f analyzer \<times> 'f filesystem"

text \<open>Lines 173 to 176: \<open>None\<close> when the audio analyzer is not run.\<close>

definition audio_wanted :: "'f analyzer \<Rightarrow> string option \<Rightarrow> string option" where
  "audio_wanted self audio_path =
     (if audio_enabled self
      then (case audio_path of Some p \<Rightarrow> if p \<noteq> [] then Some p else None | None \<Rightarrow> None)
      else None)"

text \<open>Lines 163 to 179, after the loop has ended without an exception.\<close>

definition finish_session ::
  "'f env \<Rightarrow> string \<Rightarrow> real \<Rightarrow> string option \<Rightarrow> 'f loop_state \<Rightarrow> 'f outcome"
where
  "finish_session E sid rate audio_path s =
     (let self = st_self s;
          summary = \<lparr>summary_session_id = sid, duration_seconds = real (frame_idx s) / rate,
                     num_frames = frame_idx s, fps = rate, alerts = loop_alerts s\<rparr>
      in case audio_wanted self audio_path of
           None \<Rightarrow>
             (Inr summary, self,
              save_session_log (scores E) (now_iso E) (logs_dir self) summary PyNone (st_fs s))
         | Some p \<Rightarrow>
             (let self = self\<lparr>speaker_analyzer := Some (logs_dir self)\<rparr>
              in case speaker_analyze E (logs_dir self) p of
                   Inl e \<Rightarrow> (Inl e, self, st_fs s)
                 | Inr audio_summary \<Rightarrow>
                     (Inr summary, self,
                      save_session_log (scores E) (now_iso E) (logs_dir self) summary
                        audio_summary (st_fs s))))"

text \<open>Lines 100 to 179, for a capture that opened.\<close>

definition run_session ::
  "'f env \<Rightarrow> string \<Rightarrow> string \<Rightarrow> string option \<Rightarrow> 'f capture \<Rightarrow> 'f analyzer \<Rightarrow> 'f filesystem
     \<Rightarrow> 'f outcome"
where
  "run_session E sid evidence_dir audio_path cap self fs =
     (let rate = (if CAP_PROP_FPS cap \<noteq> 0 then CAP_PROP_FPS cap else 30);
          (raised, s) = frame_loop E sid rate evidence_dir (stream cap) (loop_init self fs)
      in case raised of
           Some e \<Rightarrow> (Inl e, st_self s, st_fs s)
         | None \<Rightarrow> finish_session E sid rate audio_path s)"

definition analyze_video ::
  "'f env \<Rightarrow> 'f analyzer \<Rightarrow> 'f filesystem \<Rightarrow> string \<Rightarrow> string option \<Rightarrow> string option
     \<Rightarrow> 'f outcome"
where
  "analyze_video E self fs video_path audio_path session =
     (let sid = session_id_or E session video_path;
          evidence_dir = path_join (evidence_root self) sid;
          fs = mkdir evidence_dir fs
      in case VideoCapture E video_path of
           None \<Rightarrow> (Inl (RuntimeError (''Cannot open video: '' @ video_path)), self, fs)
         | Some cap \<Rightarrow> run_session E sid evidence_dir audio_path cap self fs)"

text \<open>The wrapper builds a new analyzer for every recording.\<close>

definition analyze_recording ::
  "'f env \<Rightarrow> 'f detectors \<Rightarrow> bool \<Rightarrow> 'f filesystem \<Rightarrow> string \<Rightarrow> string option \<Rightarrow> string option
     \<Rightarrow> string \<Rightarrow> 'f outcome"
where
  "analyze_recording E det audio_on fs video_path audio_path session logs =
     (let (analyzer, fs) = OfflineExamAnalyzer_init det audio_on logs fs
      in analyze_video E analyzer fs video_path audio_path session)"

section \<open>Notions used by the properties\<close>

subsection \<open>The three debounced signals\<close>

text \<open>
  One debounce counter in isolation: the counter after a frame and whether the alert fires,
  as each of the three blocks of \<^verbatim>\<open>_generate_alerts\<close> computes them.
\<close>

definition debounce :: "nat \<Rightarrow> nat \<Rightarrow> bool \<Rightarrow> bool \<times> nat" where
  "debounce th c sig =
     (let c' = (if sig then c + 1 else 0) in if c' \<ge> th then (True, 0) else (False, c'))"

fun debounce_run :: "nat \<Rightarrow> nat \<Rightarrow> bool list \<Rightarrow> bool list" where
  "debounce_run th c [] = []"
| "debounce_run th c (b # bs) = fst (debounce th c b) # debounce_run th (snd (debounce th c b)) bs"

datatype sustained = GazeAway | MouthMoving | MultiFace

fun threshold :: "sustained \<Rightarrow> nat" where
  "threshold GazeAway = 3"
| "threshold MouthMoving = 3"
| "threshold MultiFace = 5"

fun type_name :: "sustained \<Rightarrow> string" where
  "type_name GazeAway = ''GAZE_AWAY''"
| "type_name MouthMoving = ''MOUTH_MOVEMENT''"
| "type_name MultiFace = ''MULTI_FACE''"

fun signal :: "sustained \<Rightarrow> 'f gen_args \<Rightarrow> bool" where
  "signal GazeAway a = (gaze_direction a \<noteq> PyStr ''center'')"
| "signal MouthMoving a = truthy (mouth_moving a)"
| "signal MultiFace a = multiple_faces a"

fun counter :: "sustained \<Rightarrow> 'f analyzer \<Rightarrow> nat" where
  "counter GazeAway self = gaze_away_frames self"
| "counter MouthMoving self = mouth_moving_frames self"
| "counter MultiFace self = multi_face_frames self"

definition fired :: "sustained \<Rightarrow> 'f analyzer \<Rightarrow> 'f gen_args \<Rightarrow> bool" where
  "fired k self a = fst (debounce (threshold k) (counter k self) (signal k a))"

definition of_type :: "string \<Rightarrow> alert_event list \<Rightarrow> alert_event list" where
  "of_type ty als = filter (\<lambda>x. alert_type x = ty) als"

subsection \<open>The alerts of one frame, written out\<close>

definition evidence_path :: "'f gen_args \<Rightarrow> string \<Rightarrow> string" where
  "evidence_path a tag = path_join (arg_evidence_dir a) (evidence_name tag (arg_frame_idx a))"

definition frame_alerts :: "'f gen_args \<Rightarrow> bool \<Rightarrow> bool \<Rightarrow> bool \<Rightarrow> alert_event list" where
  "frame_alerts a g m f =
     (if \<not> truthy (face_present a)
      then [AlertEvent a ''FACE_MISSING'' ''medium'' (evidence_path a ''face_missing'') (PyDict [])]
      else [])
     @ (if g then [AlertEvent a ''GAZE_AWAY'' ''medium'' (evidence_path a ''gaze_away'') (PyDict [])]
        else [])
     @ (if m then [AlertEvent a ''MOUTH_MOVEMENT'' ''medium'' (evidence_path a ''mouth'') (PyDict [])]
        else [])
     @ (if f then [AlertEvent a ''MULTI_FACE'' ''high'' (evidence_path a ''multi_face'')
                     (PyDict [(''num_faces'', num_faces a)])]
        else [])
     @ map (AlertEvent a ''OBJECT_DETECTED'' ''high'' (evidence_path a ''object'')) (object_list a)"

text \<open>The tag that \<^verbatim>\<open>save_evidence\<close> is given for each alert type.\<close>

definition tag_of :: "string \<Rightarrow> string" where
  "tag_of ty =
     (if ty = ''FACE_MISSING'' then ''face_missing''
      else if ty = ''GAZE_AWAY'' then ''gaze_away''
      else if ty = ''MOUTH_MOVEMENT'' then ''mouth''
      else if ty = ''MULTI_FACE'' then ''multi_face''
      else ''object'')"

definition alert_types :: "string set" where
  "alert_types = {''FACE_MISSING'', ''GAZE_AWAY'', ''MOUTH_MOVEMENT'', ''MULTI_FACE'',
                  ''OBJECT_DETECTED''}"

text \<open>The evidence files that one call of \<^verbatim>\<open>_generate_alerts\<close> writes, in order.\<close>

definition evidence_written :: "'f gen_args \<Rightarrow> 'f analyzer \<Rightarrow> string list" where
  "evidence_written a self =
     (if truthy (face_present a) then [] else [evidence_path a ''face_missing''])
     @ (if fired GazeAway self a then [evidence_path a ''gaze_away''] else [])
     @ (if fired MouthMoving self a then [evidence_path a ''mouth''] else [])
     @ (if fired MultiFace self a then [evidence_path a ''multi_face''] else [])
     @ (if object_list a = [] then [] else [evidence_path a ''object''])"

subsection \<open>One processed frame, seen from outside\<close>

text \<open>The loop state after a frame for which \<^verbatim>\<open>_generate_alerts\<close> was called with \<open>a\<close>.\<close>

definition advance :: "'f loop_state \<Rightarrow> 'f gen_args \<Rightarrow> 'f loop_state" where
  "advance s a =
     \<lparr>frame_idx = frame_idx s + 1, processed_idx = processed_idx s + 1,
      last_faces = num_faces a, last_multi = multiple_faces a, last_objects = object_list a,
      loop_alerts = loop_alerts s @ fst (generate_alerts a (st_self s) (st_fs s)),
      st_self = fst (snd (generate_alerts a (st_self s) (st_fs s))),
      st_fs = snd (snd (generate_alerts a (st_self s) (st_fs s))),
      submitted = submitted s @ [a]\<rparr>"

text \<open>\<open>a\<close> holds what the five detector steps returned for the frame \<open>raw\<close> in state \<open>s\<close>.\<close>

definition detected ::
  "'f env \<Rightarrow> string \<Rightarrow> real \<Rightarrow> string \<Rightarrow> 'f \<Rightarrow> 'f loop_state \<Rightarrow> 'f gen_args \<Rightarrow> bool"
where
  "detected E sid rate ed raw s a \<longleftrightarrow>
     arg_session_id a = sid \<and> arg_frame_idx a = frame_idx s \<and> arg_t a = real (frame_idx s) / rate
     \<and> arg_frame a = downscale E raw \<and> arg_evidence_dir a = ed
     \<and> detect_face (st_self s) (downscale E raw) = Inr (face_present a)
     \<and> track_eyes (st_self s) (downscale E raw) = Inr (gaze_direction a)
     \<and> monitor_mouth (st_self s) (downscale E raw) = Inr (mouth_moving a)
     \<and> detect_objects E (st_self s) (processed_idx s) (downscale E raw) = Inr (object_list a)
     \<and> detect_multiple_faces E (st_self s) (processed_idx s) (downscale E raw)
          (last_faces s, last_multi s) = Inr (num_faces a, multiple_faces a)"

section \<open>Concrete instances\<close>

text \<open>
  A small environment in which frames are numbers: the video \<^verbatim>\<open>exam.mp4\<close> opens and
  decodes the given frames, every other path does not open. The video score is a given
  number and is taken as the overall score. The stem of a path is what precedes its first
  dot, which is \<^verbatim>\<open>Path.stem\<close> for the file names used here (no directory, one suffix).
\<close>

definition demo_scores :: "real \<Rightarrow> scoring" where
  "demo_scores x = \<lparr>compute_video_score = (\<lambda>n c al. x), compute_audio_score = (\<lambda>a. 1),
     compute_overall_score = (\<lambda>v a. v)\<rparr>"

definition demo_env :: "nat list \<Rightarrow> real \<Rightarrow> nat env" where
  "demo_env frames x =
     \<lparr>K = module_constants,
      VideoCapture = (\<lambda>p. if p = ''exam.mp4'' then Some \<lparr>CAP_PROP_FPS = 30, stream = frames\<rparr>
                          else None),
      frame_height = (\<lambda>f. 360), frame_width = (\<lambda>f. 480), resize = (\<lambda>f w h. f),
      speaker_analyze = (\<lambda>tmp p. Inr PyNone),
      scores = demo_scores x,
      stem = takeWhile (\<lambda>c. c \<noteq> CHR ''.''), now_stamp = ''20240101_120000'',
      now_iso = ''2024-01-01T12:00:00''\<rparr>"

definition no_detectors :: "nat detectors" where
  "no_detectors = \<lparr>face_detector = None, eye_tracker = None, mouth_monitor = None,
     multi_face_detector = None, object_detector = None\<rparr>"

definition empty_fs :: "nat filesystem" where
  "empty_fs = \<lparr>dirs = {}, files = Map.empty\<rparr>"

definition demo_analyzer :: "nat detectors \<Rightarrow> nat analyzer" where
  "demo_analyzer det = fst (OfflineExamAnalyzer_init det False ''logs'' empty_fs)"

definition demo_fs :: "nat filesystem" where
  "demo_fs = snd (OfflineExamAnalyzer_init no_detectors False ''logs'' empty_fs)"

section \<open>Loop invariants\<close>

text \<open>The calls made so far are those for the multiples of the stride below the frame index.\<close>

definition sampled :: "'f env \<Rightarrow> 'f loop_state \<Rightarrow> bool" where
  "sampled E s \<longleftrightarrow>
     map arg_frame_idx (submitted s) = filter (\<lambda>i. FRAME_STRIDE (K E) dvd i) [0..<frame_idx s]
     \<and> length (submitted s) = processed_idx s"

text \<open>
  What the loop keeps true about the two detectors that run at a cadence: \<open>k\<close> is the
  processed index of the \<open>k\<close>-th call; the face count of a call is that of the latest call
  at a multiple of the multi-face cadence; the object list of a call off the object cadence
  is empty; at a multiple of its cadence each value is what the detector returned, checked
  for its type.
\<close>

definition detection_frame :: "'f env \<Rightarrow> 'f analyzer \<Rightarrow> nat \<Rightarrow> 'f gen_args \<Rightarrow> bool" where
  "detection_frame E self k a \<longleftrightarrow>
     (case multi_face_detector self of
        None \<Rightarrow> num_faces a = PyInt 1 \<and> \<not> multiple_faces a
      | Some d \<Rightarrow>
          k mod MF_DETECT_EVERY (K E) \<noteq> 0 \<or>
          (\<exists>mf. d (arg_frame a) = Inr mf
             \<and> num_faces a = (if isinstance_int mf then mf else PyInt 1)
             \<and> multiple_faces a = (1 < int_value (num_faces a))))
     \<and> (case object_detector self of
          None \<Rightarrow> object_list a = []
        | Some d \<Rightarrow>
            k mod OBJ_DETECT_EVERY (K E) \<noteq> 0 \<or>
            (\<exists>res. d (arg_frame a) = Inr res
               \<and> object_list a = (case res of PyList xs \<Rightarrow> xs | _ \<Rightarrow> [])))"

definition cadence_inv :: "'f env \<Rightarrow> 'f analyzer \<Rightarrow> 'f loop_state \<Rightarrow> bool" where
  "cadence_inv E self s \<longleftrightarrow>
     length (submitted s) = processed_idx s
     \<and> multi_face_detector (st_self s) = multi_face_detector self
     \<and> object_detector (st_self s) = object_detector self
     \<and> last_faces s = (if submitted s = [] then PyInt 1 else num_faces (last (submitted s)))
     \<and> last_multi s = (if submitted s = [] then False else multiple_faces (last (submitted s)))
     \<and> (\<forall>k < length (submitted s).
           num_faces (submitted s ! (k - k mod MF_DETECT_EVERY (K E))) =
             num_faces (submitted s ! k)
         \<and> multiple_faces (submitted s ! (k - k mod MF_DETECT_EVERY (K E))) =
             multiple_faces (submitted s ! k)
         \<and> (k mod OBJ_DETECT_EVERY (K E) \<noteq> 0 \<longrightarrow> object_list (submitted s ! k) = [])
         \<and> detection_frame E self k (submitted s ! k))"

text \<open>The counter after a run of signals, and the items of a list picked by flags.\<close>

definition debounce_end :: "nat \<Rightarrow> nat \<Rightarrow> bool list \<Rightarrow> nat" where
  "debounce_end th c sigs = foldl (\<lambda>c b. snd (debounce th c b)) c sigs"

definition picked :: "'a list \<Rightarrow> bool list \<Rightarrow> 'a list" where
  "picked xs flags = map fst (filter snd (zip xs flags))"

text \<open>
  The alerts of one debounced kind are those of the calls at which the counter, run over the
  signals of all calls so far, fires.
\<close>

definition fires_inv :: "sustained \<Rightarrow> 'f analyzer \<Rightarrow> 'f loop_state \<Rightarrow> bool" where
  "fires_inv k self s \<longleftrightarrow>
     counter k (st_self s) =
       debounce_end (threshold k) (counter k self) (map (signal k) (submitted s))
     \<and> map frame_index (of_type (type_name k) (loop_alerts s)) =
         map arg_frame_idx
           (picked (submitted s)
              (debounce_run (threshold k) (counter k self) (map (signal k) (submitted s))))"

section \<open>Evidence files\<close>

text \<open>Reading a decimal numeral back.\<close>

definition nat_of_digits :: "string \<Rightarrow> nat" where
  "nat_of_digits ds = foldl (\<lambda>acc c. acc * 10 + (of_char c - 48)) 0 ds"

text \<open>
  An alert of a session is keyed when its type is one of the five and its evidence path is
  the one that \<^verbatim>\<open>save_evidence\<close> builds from the tag of the type and the frame index.
\<close>

definition keyed :: "string \<Rightarrow> alert_event \<Rightarrow> bool" where
  "keyed ed x \<longleftrightarrow>
     alert_type x \<in> alert_types
     \<and> image_path x = Some (path_join ed (evidence_name (tag_of (alert_type x)) (frame_index x)))"

definition alert_key :: "alert_event \<Rightarrow> string \<times> nat" where
  "alert_key x = (alert_type x, frame_index x)"

definition not_object :: "alert_event \<Rightarrow> bool" where
  "not_object x \<longleftrightarrow> alert_type x \<noteq> ''OBJECT_DETECTED''"

definition evidence_inv :: "string \<Rightarrow> 'f loop_state \<Rightarrow> bool" where
  "evidence_inv ed s \<longleftrightarrow>
     (\<forall>x \<in> set (loop_alerts s). keyed ed x \<and> frame_index x < frame_idx s)
     \<and> distinct (map alert_key (filter not_object (loop_alerts s)))"

section \<open>The loop of a session\<close>

text \<open>The frame loop as \<^verbatim>\<open>analyze_video\<close> runs it on a capture that opened.\<close>

definition frame_rate :: "'f capture \<Rightarrow> real" where
  "frame_rate cap = (if CAP_PROP_FPS cap \<noteq> 0 then CAP_PROP_FPS cap else 30)"

definition session_evidence_dir :: "'f env \<Rightarrow> 'f analyzer \<Rightarrow> string option \<Rightarrow> string \<Rightarrow> string" where
  "session_evidence_dir E self session video_path =
     path_join (evidence_root self) (session_id_or E session video_path)"


definition session_loop ::
  "'f env \<Rightarrow> 'f analyzer \<Rightarrow> 'f filesystem \<Rightarrow> string \<Rightarrow> string option \<Rightarrow> 'f capture
     \<Rightarrow> exn option \<times> 'f loop_state"
where
  "session_loop E self fs video_path session cap =
     frame_loop E (session_id_or E session video_path) (frame_rate cap)
       (session_evidence_dir E self session video_path) (stream cap)
       (loop_init self (mkdir (session_evidence_dir E self session video_path) fs))"








text \<open>
  An analyzer whose enabled detectors return a value for every frame (the eye tracker one
  that unpacks into two), with cadences that are not zero.
\<close>

definition returns_always :: "'f detector option \<Rightarrow> bool" where
  "returns_always det \<longleftrightarrow> (case det of None \<Rightarrow> True | Some d \<Rightarrow> \<forall>frame. \<exists>v. d frame = Inr v)"

definition reliable :: "'f env \<Rightarrow> 'f analyzer \<Rightarrow> bool" where
  "reliable E self \<longleftrightarrow>
     FRAME_STRIDE (K E) \<noteq> 0
     \<and> returns_always (face_detector self)
     \<and> (case eye_tracker self of None \<Rightarrow> True
         | Some d \<Rightarrow> \<forall>frame. \<exists>v w. d frame = Inr v \<and> unpack_first_of_two v = Inr w)
     \<and> returns_always (mouth_monitor self)
     \<and> returns_always (object_detector self)
     \<and> (object_detector self \<noteq> None \<longrightarrow> OBJ_DETECT_EVERY (K E) \<noteq> 0)
     \<and> returns_always (multi_face_detector self)
     \<and> (multi_face_detector self \<noteq> None \<longrightarrow> MF_DETECT_EVERY (K E) \<noteq> 0)"

section \<open>Basic facts\<close>

subsection \<open>The verdict\<close>

lemma counts_get_counter_add:
  "counts_get (counter_add k' c) k = counts_get c k + (if k = k' then 1 else 0)"
  by (induction c) (auto simp: counts_get_def)

lemma counts_get_foldl:
  "counts_get (foldl (\<lambda>c k. counter_add k c) c ks) k = counts_get c k + count_list ks k"
  by (induction ks arbitrary: c) (auto simp: counts_get_counter_add)

lemma counts_get_Counter: "counts_get (Counter ks) k = count_list ks k"
proof -
  have "counts_get [] k = 0" by (simp add: counts_get_def)
  then show ?thesis by (simp add: Counter_def counts_get_foldl)
qed

lemma counts_get_Counter_pos: "0 < counts_get (Counter ks) k \<longleftrightarrow> k \<in> set ks"
  using count_list_0_iff [of ks k] by (auto simp: counts_get_Counter)

lemma compute_verdict_policy:
  "compute_verdict (Counter (map alert_type al)) score al = verdict_policy al score"
  unfolding compute_verdict_def verdict_policy_def counts_get_Counter_pos
  by (auto simp: image_iff)


subsection \<open>Alert generation\<close>

lemma save_evidence_eq:
  "save_evidence a tag fs = (evidence_path a tag, write_file (evidence_path a tag) (Image (arg_frame a)) fs)"
  by (simp add: save_evidence_def evidence_path_def Let_def)

lemma face_block_eq:
  "face_block a (al, self, fs) =
     (al @ (if truthy (face_present a) then []
            else [AlertEvent a ''FACE_MISSING'' ''medium'' (evidence_path a ''face_missing'')
                    (PyDict [])]),
      self,
      if truthy (face_present a) then fs
      else write_file (evidence_path a ''face_missing'') (Image (arg_frame a)) fs)"
  by (simp add: face_block_def save_evidence_eq)

lemma gaze_block_eq:
  "gaze_block a (al, self, fs) =
     (al @ (if fired GazeAway self a
            then [AlertEvent a ''GAZE_AWAY'' ''medium'' (evidence_path a ''gaze_away'') (PyDict [])]
            else []),
      self\<lparr>gaze_away_frames := snd (debounce 3 (gaze_away_frames self) (signal GazeAway a))\<rparr>,
      if fired GazeAway self a
      then write_file (evidence_path a ''gaze_away'') (Image (arg_frame a)) fs else fs)"
  by (simp add: gaze_block_def save_evidence_eq fired_def debounce_def Let_def)

lemma mouth_block_eq:
  "mouth_block a (al, self, fs) =
     (al @ (if fired MouthMoving self a
            then [AlertEvent a ''MOUTH_MOVEMENT'' ''medium'' (evidence_path a ''mouth'') (PyDict [])]
            else []),
      self\<lparr>mouth_moving_frames := snd (debounce 3 (mouth_moving_frames self) (signal MouthMoving a))\<rparr>,
      if fired MouthMoving self a
      then write_file (evidence_path a ''mouth'') (Image (arg_frame a)) fs else fs)"
  by (simp add: mouth_block_def save_evidence_eq fired_def debounce_def Let_def)

lemma multi_face_block_eq:
  "multi_face_block a (al, self, fs) =
     (al @ (if fired MultiFace self a
            then [AlertEvent a ''MULTI_FACE'' ''high'' (evidence_path a ''multi_face'')
                    (PyDict [(''num_faces'', num_faces a)])]
            else []),
      self\<lparr>multi_face_frames := snd (debounce 5 (multi_face_frames self) (signal MultiFace a))\<rparr>,
      if fired MultiFace self a
      then write_file (evidence_path a ''multi_face'') (Image (arg_frame a)) fs else fs)"
  by (simp add: multi_face_block_def save_evidence_eq fired_def debounce_def Let_def)

lemma object_alert_eq:
  "object_alert a (al, self, fs) obj =
     (al @ [AlertEvent a ''OBJECT_DETECTED'' ''high'' (evidence_path a ''object'') obj], self,
      write_file (evidence_path a ''object'') (Image (arg_frame a)) fs)"
  by (simp add: object_alert_def save_evidence_eq)

lemma write_file_twice: "write_file p c (write_file p c fs) = write_file p c fs"
  by (simp add: write_file_def)

lemma foldl_object_alert:
  "foldl (object_alert a) (al, self, fs) objs =
     (al @ map (AlertEvent a ''OBJECT_DETECTED'' ''high'' (evidence_path a ''object'')) objs, self,
      if objs = [] then fs else write_file (evidence_path a ''object'') (Image (arg_frame a)) fs)"
proof (induction objs arbitrary: al fs)
  case Nil
  show ?case by simp
next
  case (Cons obj objs)
  show ?case
    by (simp add: Cons.IH object_alert_eq write_file_twice)
qed

lemma fired_update [simp]:
  "fired MouthMoving (self\<lparr>gaze_away_frames := g\<rparr>) a = fired MouthMoving self a"
  "fired MultiFace (self\<lparr>gaze_away_frames := g\<rparr>) a = fired MultiFace self a"
  "fired MultiFace (self\<lparr>mouth_moving_frames := m\<rparr>) a = fired MultiFace self a"
  by (simp_all add: fired_def)

lemma generate_alerts_eq:
  "generate_alerts a self fs =
     (frame_alerts a (fired GazeAway self a) (fired MouthMoving self a) (fired MultiFace self a),
      self\<lparr>gaze_away_frames := snd (debounce 3 (gaze_away_frames self) (signal GazeAway a)),
           mouth_moving_frames := snd (debounce 3 (mouth_moving_frames self) (signal MouthMoving a)),
           multi_face_frames := snd (debounce 5 (multi_face_frames self) (signal MultiFace a))\<rparr>,
      foldl (\<lambda>fs p. write_file p (Image (arg_frame a)) fs) fs (evidence_written a self))"
  unfolding generate_alerts_def objects_block_def face_block_eq gaze_block_eq mouth_block_eq
    multi_face_block_eq foldl_object_alert
  by (simp add: frame_alerts_def evidence_written_def)

subsection \<open>The loop\<close>

lemma process_frame_Inr:
  assumes "process_frame E sid rate ed raw s = Inr s'"
  shows "FRAME_STRIDE (K E) \<noteq> 0 \<and>
         (if frame_idx s mod FRAME_STRIDE (K E) \<noteq> 0 then s' = s\<lparr>frame_idx := frame_idx s + 1\<rparr>
          else \<exists>a. detected E sid rate ed raw s a \<and> s' = advance s a)"
proof -
  from assms have nz: "FRAME_STRIDE (K E) \<noteq> 0"
    by (auto simp: process_frame_def and_then_def py_mod_def split: if_splits)
  show ?thesis
  proof (cases "frame_idx s mod FRAME_STRIDE (K E) = 0")
    case False
    with assms nz show ?thesis
      by (simp add: process_frame_def and_then_def py_mod_def)
  next
    case True
    from assms nz True obtain face gaze mouth objs faces multi where
      d: "detect_face (st_self s) (downscale E raw) = Inr face"
         "track_eyes (st_self s) (downscale E raw) = Inr gaze"
         "monitor_mouth (st_self s) (downscale E raw) = Inr mouth"
         "detect_objects E (st_self s) (processed_idx s) (downscale E raw) = Inr objs"
         "detect_multiple_faces E (st_self s) (processed_idx s) (downscale E raw)
            (last_faces s, last_multi s) = Inr (faces, multi)"
      by (auto simp: process_frame_def and_then_def py_mod_def Let_def split: sum.splits)
    let ?a = "\<lparr>arg_session_id = sid, arg_frame_idx = frame_idx s,
               arg_t = real (frame_idx s) / rate,
               arg_frame = downscale E raw, arg_evidence_dir = ed,
               face_present = face, gaze_direction = gaze, mouth_moving = mouth,
               multiple_faces = multi, num_faces = faces, object_list = objs\<rparr>"
    have "detected E sid rate ed raw s ?a"
      using d by (simp add: detected_def)
    moreover have "s' = advance s ?a"
      using assms nz True d
      by (simp add: process_frame_def and_then_def py_mod_def Let_def advance_def split_beta)
    ultimately show ?thesis using nz True by auto
  qed
qed

lemma frame_loop_invariant:
  assumes "frame_loop E sid rate ed frames s0 = (r, s)"
    and "P s0"
    and "\<And>raw s s'. P s \<Longrightarrow> process_frame E sid rate ed raw s = Inr s' \<Longrightarrow> P s'"
  shows "P s"
  using assms(1,2)
proof (induction frames arbitrary: s0)
  case Nil
  then show ?case by simp
next
  case (Cons raw rest)
  show ?case
  proof (cases "process_frame E sid rate ed raw s0")
    case (Inl e)
    with Cons.prems show ?thesis by simp
  next
    case (Inr s1)
    with Cons.prems have "frame_loop E sid rate ed rest s1 = (r, s)" by simp
    moreover have "P s1" using assms(3) Cons.prems(2) Inr by blast
    ultimately show ?thesis by (rule Cons.IH)
  qed
qed

subsection \<open>Evaluation\<close>

lemmas demo_defs = demo_env_def demo_scores_def no_detectors_def empty_fs_def demo_analyzer_def
  demo_fs_def OfflineExamAnalyzer_init_def module_constants_def Let_def

lemmas run_defs = analyze_video_def run_session_def finish_session_def audio_wanted_def
  session_id_or_def generate_session_id_def loop_init_def process_frame_def and_then_def
  py_mod_def downscale_def detect_face_def track_eyes_def monitor_mouth_def detect_objects_def
  detect_multiple_faces_def generate_alerts_def face_block_def gaze_block_def mouth_block_def
  multi_face_block_def objects_block_def object_alert_def save_evidence_def AlertEvent_def
  evidence_name_def path_join_def mkdir_def write_file_def Let_def

subsection \<open>Alerts by type\<close>

lemma alert_type_AlertEvent [simp]: "alert_type (AlertEvent a ty sev path det) = ty"
  by (simp add: AlertEvent_def)

lemma frame_index_AlertEvent [simp]: "frame_index (AlertEvent a ty sev path det) = arg_frame_idx a"
  by (simp add: AlertEvent_def)

lemma details_AlertEvent [simp]: "details (AlertEvent a ty sev path det) = det"
  by (simp add: AlertEvent_def)

lemma image_path_AlertEvent [simp]: "image_path (AlertEvent a ty sev path det) = Some path"
  by (simp add: AlertEvent_def)

lemma of_type_append [simp]: "of_type ty (xs @ ys) = of_type ty xs @ of_type ty ys"
  by (simp add: of_type_def)

lemma of_type_Nil [simp]: "of_type ty [] = []"
  by (simp add: of_type_def)

lemma of_type_single [simp]:
  "of_type ty [AlertEvent a ty' sev path det] =
     (if ty' = ty then [AlertEvent a ty' sev path det] else [])"
  by (simp add: of_type_def)

lemma of_type_objects [simp]:
  "of_type ty (map (AlertEvent a ty' sev path) objs) =
     (if ty' = ty then map (AlertEvent a ty' sev path) objs else [])"
  by (induction objs) (simp_all add: of_type_def)

lemma of_type_frame_alerts_face:
  "of_type ''FACE_MISSING'' (frame_alerts a g m f) =
     (if truthy (face_present a) then []
      else [AlertEvent a ''FACE_MISSING'' ''medium'' (evidence_path a ''face_missing'') (PyDict [])])"
  by (simp add: frame_alerts_def)

lemma of_type_frame_alerts_object:
  "of_type ''OBJECT_DETECTED'' (frame_alerts a g m f) =
     map (AlertEvent a ''OBJECT_DETECTED'' ''high'' (evidence_path a ''object'')) (object_list a)"
  by (simp add: frame_alerts_def)

section \<open>The verdict of a session\<close>

lemma save_session_log_written:
  "\<exists>L. files (save_session_log sc now logs summary audio_summary fs)
          (path_join logs (summary_session_id summary @ ''.json'')) = Some (SessionLog L)
      \<and> log_session L = summary
      \<and> video (log_scores L) =
          compute_video_score sc (length (alerts summary))
            (Counter (map alert_type (alerts summary))) (alerts summary)
      \<and> overall (log_scores L) =
          compute_overall_score sc (video (log_scores L)) (audio (log_scores L))
      \<and> log_verdict L = verdict_policy (alerts summary) (overall (log_scores L))"
  by (simp add: save_session_log_def Let_def write_file_def compute_verdict_policy)

lemma finish_session_Inr:
  assumes "finish_session E sid rate audio_path s = (Inr summary, self', fs')"
  shows "logs_dir self' = logs_dir (st_self s)
       \<and> (\<exists>au. fs' = save_session_log (scores E) (now_iso E) (logs_dir (st_self s)) summary au
                       (st_fs s))"
  using assms
  by (auto simp: finish_session_def Let_def split: option.splits sum.splits)

lemma analyze_video_Inr:
  assumes "analyze_video E self fs video_path audio_path session = (Inr summary, self', fs')"
  shows "\<exists>sid rate s. finish_session E sid rate audio_path s = (Inr summary, self', fs')"
proof -
  from assms obtain cap where "VideoCapture E video_path = Some cap"
    by (auto simp: analyze_video_def Let_def split: option.splits)
  with assms show ?thesis
    by (auto simp: analyze_video_def run_session_def Let_def split: option.splits prod.splits)
qed

text \<open>
  C1. Whenever \<^verbatim>\<open>analyze_video\<close> returns a summary, the session record it has written holds
  the verdict of the first-match-wins policy: CHEATING when a MULTI\_FACE or
  OBJECT\_DETECTED alert is among the alerts, otherwise SUSPICIOUS when the overall score is
  below 0.7 or there are more than five alerts, otherwise CLEAN. The overall score is the one
  the scoring functions computed for this alert list.
\<close>

theorem verdict_first_match_wins:
  assumes "analyze_video E self fs video_path audio_path session = (Inr summary, self', fs')"
  shows "\<exists>L. files fs' (path_join (logs_dir self') (summary_session_id summary @ ''.json''))
               = Some (SessionLog L)
           \<and> log_session L = summary
           \<and> video (log_scores L) =
               compute_video_score (scores E) (length (alerts summary))
                 (Counter (map alert_type (alerts summary))) (alerts summary)
           \<and> overall (log_scores L) =
               compute_overall_score (scores E) (video (log_scores L)) (audio (log_scores L))
           \<and> log_verdict L = verdict_policy (alerts summary) (overall (log_scores L))"
proof -
  from analyze_video_Inr [OF assms] obtain sid rate s where
    "finish_session E sid rate audio_path s = (Inr summary, self', fs')"
    by blast
  from finish_session_Inr [OF this] obtain au where
    "logs_dir self' = logs_dir (st_self s)"
    "fs' = save_session_log (scores E) (now_iso E) (logs_dir (st_self s)) summary au (st_fs s)"
    by blast
  with save_session_log_written
         [of "scores E" "now_iso E" "logs_dir (st_self s)" summary au "st_fs s"]
  show ?thesis by auto
qed

text \<open>
  A recording of six frames in which the face detector never sees a face: two FACE\_MISSING
  alerts (frames 0 and 5), overall score 0.65, verdict SUSPICIOUS.
\<close>

lemma faceless_run:
  "\<exists>summary.
     fst (analyze_video (demo_env [0, 1, 2, 3, 4, 5] (65 / 100))
       (demo_analyzer (no_detectors\<lparr>face_detector := Some (\<lambda>f. Inr (PyBool False))\<rparr>)) demo_fs
       ''exam.mp4'' None (Some ''s1'')) = Inr summary
     \<and> map alert_type (alerts summary) = [''FACE_MISSING'', ''FACE_MISSING'']
     \<and> (\<forall>a \<in> set (alerts summary). alert_type a = ''FACE_MISSING'')
     \<and> length (alerts summary) = 2
     \<and> summary_session_id summary = ''s1''"
  by (simp add: demo_defs run_defs)

theorem verdict_first_match_wins_witness:
  "\<exists>summary self' fs' L.
     analyze_video (demo_env [0, 1, 2, 3, 4, 5] (65 / 100))
       (demo_analyzer (no_detectors\<lparr>face_detector := Some (\<lambda>f. Inr (PyBool False))\<rparr>)) demo_fs
       ''exam.mp4'' None (Some ''s1'') = (Inr summary, self', fs')
     \<and> length (alerts summary) = 2
     \<and> files fs' ''logs/s1.json'' = Some (SessionLog L)
     \<and> overall (log_scores L) = 65 / 100
     \<and> log_verdict L = ''SUSPICIOUS''"
proof -
  obtain r self' fs' where run:
    "analyze_video (demo_env [0, 1, 2, 3, 4, 5] (65 / 100))
       (demo_analyzer (no_detectors\<lparr>face_detector := Some (\<lambda>f. Inr (PyBool False))\<rparr>)) demo_fs
       ''exam.mp4'' None (Some ''s1'') = (r, self', fs')"
    by (metis prod.exhaust)
  have logs: "logs_dir self' = ''logs''"
    using run [THEN arg_cong, of "\<lambda>x. logs_dir (fst (snd x))"]
    by (simp add: demo_defs run_defs)
  from run faceless_run obtain summary where r: "r = Inr summary"
    and al: "\<forall>a \<in> set (alerts summary). alert_type a = ''FACE_MISSING''"
    and len: "length (alerts summary) = 2"
    and sid: "summary_session_id summary = ''s1''"
    by auto
  have no: "\<not> (\<exists>a \<in> set (alerts summary).
      alert_type a = ''MULTI_FACE'' \<or> alert_type a = ''OBJECT_DETECTED'')"
  proof
    assume "\<exists>a \<in> set (alerts summary).
      alert_type a = ''MULTI_FACE'' \<or> alert_type a = ''OBJECT_DETECTED''"
    then obtain a where a: "a \<in> set (alerts summary)"
      and ty: "alert_type a = ''MULTI_FACE'' \<or> alert_type a = ''OBJECT_DETECTED''"
      by blast
    from al a have "alert_type a = ''FACE_MISSING''" by blast
    with ty show False by simp
  qed
  from verdict_first_match_wins [OF run [unfolded r]] obtain L where
    L: "files fs' (path_join (logs_dir self') (summary_session_id summary @ ''.json''))
          = Some (SessionLog L)"
       "overall (log_scores L) =
          compute_overall_score (scores (demo_env [0, 1, 2, 3, 4, 5] (65 / 100)))
            (video (log_scores L)) (audio (log_scores L))"
       "video (log_scores L) =
          compute_video_score (scores (demo_env [0, 1, 2, 3, 4, 5] (65 / 100)))
            (length (alerts summary)) (Counter (map alert_type (alerts summary)))
            (alerts summary)"
       "log_verdict L = verdict_policy (alerts summary) (overall (log_scores L))"
    by blast
  have p: "path_join (logs_dir self') (summary_session_id summary @ ''.json'') = ''logs/s1.json''"
    by (simp add: logs sid path_join_def)
  have ov: "overall (log_scores L) = 65 / 100"
    using L(2,3) by (simp add: demo_env_def demo_scores_def)
  have v: "log_verdict L = ''SUSPICIOUS''"
    using L(4) no len by (simp add: verdict_policy_def ov)
  from run r len L(1) p ov v show ?thesis
    by (intro exI [of _ summary] exI [of _ self'] exI [of _ fs'] exI [of _ L]) simp
qed

section \<open>A video that cannot be opened\<close>

text \<open>
  C8. When the video cannot be opened, \<^verbatim>\<open>analyze_video\<close> raises the RuntimeError of line 98
  and writes no file: in particular no session record. The same holds for the caller
  \<^verbatim>\<open>analyze_recording\<close>, which does not catch the exception.
\<close>

theorem unopenable_video_raises_without_record:
  assumes "VideoCapture E video_path = None"
  shows "(\<exists>fs'. analyze_video E self fs video_path audio_path session =
                 (Inl (RuntimeError (''Cannot open video: '' @ video_path)), self, fs')
              \<and> files fs' = files fs)
       \<and> (\<exists>self' fs'. analyze_recording E det audio_on fs video_path audio_path session logs =
                 (Inl (RuntimeError (''Cannot open video: '' @ video_path)), self', fs')
              \<and> files fs' = files fs)"
  using assms
  by (simp add: analyze_video_def analyze_recording_def OfflineExamAnalyzer_init_def mkdir_def
      Let_def)

theorem unopenable_video_raises_without_record_witness:
  "VideoCapture (demo_env [0, 1, 2] 1) ''missing.mp4'' = None
   \<and> fst (analyze_video (demo_env [0, 1, 2] 1) (demo_analyzer no_detectors) demo_fs
            ''missing.mp4'' None (Some ''s2''))
       = Inl (RuntimeError ''Cannot open video: missing.mp4'')
   \<and> files (snd (snd (analyze_video (demo_env [0, 1, 2] 1) (demo_analyzer no_detectors) demo_fs
            ''missing.mp4'' None (Some ''s2'')))) ''logs/s2.json'' = None"
proof -
  have closed: "VideoCapture (demo_env [0, 1, 2] 1) ''missing.mp4'' = None"
    by (simp add: demo_env_def)
  have none: "files demo_fs ''logs/s2.json'' = None"
    by (simp add: demo_defs mkdir_def)
  from unopenable_video_raises_without_record [OF closed, THEN conjunct1,
      of "demo_analyzer no_detectors" demo_fs None "Some ''s2''"]
  obtain fs' where
    "analyze_video (demo_env [0, 1, 2] 1) (demo_analyzer no_detectors) demo_fs
       ''missing.mp4'' None (Some ''s2'')
     = (Inl (RuntimeError (''Cannot open video: '' @ ''missing.mp4'')),
        demo_analyzer no_detectors, fs')"
    and "files fs' = files demo_fs"
    by blast
  with closed none show ?thesis by simp
qed

text \<open>
  C10. When the video cannot be opened, the call has by then chosen the session identifier
  (derived from the stem of the path and the clock when none, or an empty one, was given)
  and created the evidence directory of the session; the call ends with an exception, and
  no file has been written, so nothing was put into that directory.
\<close>

theorem failed_open_leaves_evidence_dir:
  assumes "VideoCapture E video_path = None"
  shows "\<exists>e self' fs'.
           analyze_video E self fs video_path audio_path session = (Inl e, self', fs')
         \<and> dirs fs' =
             insert (path_join (evidence_root self) (session_id_or E session video_path)) (dirs fs)
         \<and> files fs' = files fs
         \<and> session_id_or E session video_path =
             (if session = None \<or> session = Some []
              then stem E video_path @ ''_'' @ now_stamp E else the session)"
  using assms
  by (auto simp: analyze_video_def mkdir_def Let_def session_id_or_def generate_session_id_def
      split: option.splits)

theorem failed_open_leaves_evidence_dir_witness:
  "VideoCapture (demo_env [0, 1, 2] 1) ''missing.mp4'' = None
   \<and> ''logs/evidence/missing_20240101_120000''
       \<in> dirs (snd (snd (analyze_video (demo_env [0, 1, 2] 1) (demo_analyzer no_detectors) demo_fs
            ''missing.mp4'' None None)))
   \<and> ''logs/evidence/missing_20240101_120000'' \<notin> dirs demo_fs"
proof -
  have closed: "VideoCapture (demo_env [0, 1, 2] 1) ''missing.mp4'' = None"
    by (simp add: demo_env_def)
  have root: "path_join (evidence_root (demo_analyzer no_detectors))
      (session_id_or (demo_env [0, 1, 2] 1) None ''missing.mp4'')
      = ''logs/evidence/missing_20240101_120000''"
    by (simp add: demo_defs session_id_or_def generate_session_id_def path_join_def mkdir_def)
  have fresh: "''logs/evidence/missing_20240101_120000'' \<notin> dirs demo_fs"
    by (simp add: demo_defs mkdir_def path_join_def)
  from failed_open_leaves_evidence_dir [OF closed, of "demo_analyzer no_detectors" demo_fs
      None None]
  obtain e self' fs' where
    "analyze_video (demo_env [0, 1, 2] 1) (demo_analyzer no_detectors) demo_fs
       ''missing.mp4'' None None = (Inl e, self', fs')"
    and "dirs fs' =
      insert (path_join (evidence_root (demo_analyzer no_detectors))
                (session_id_or (demo_env [0, 1, 2] 1) None ''missing.mp4'')) (dirs demo_fs)"
    by blast
  with root closed fresh show ?thesis by simp
qed

section \<open>Instantaneous alerts\<close>

text \<open>
  C7. Whatever the debounce counters hold, one call of \<^verbatim>\<open>_generate_alerts\<close> returns exactly
  one FACE\_MISSING alert when the face-presence value is false and none otherwise, and
  exactly one OBJECT\_DETECTED alert for each item of the object list, in order, with the item
  as its details; all of them carry the frame index of the call. So a frame with no face
  and one object gives one alert of each type.
\<close>

theorem face_and_object_alerts_instantaneous:
  "map frame_index (of_type ''FACE_MISSING'' (fst (generate_alerts a self fs))) =
     (if truthy (face_present a) then [] else [arg_frame_idx a])
   \<and> map details (of_type ''OBJECT_DETECTED'' (fst (generate_alerts a self fs))) = object_list a
   \<and> map frame_index (of_type ''OBJECT_DETECTED'' (fst (generate_alerts a self fs))) =
       replicate (length (object_list a)) (arg_frame_idx a)"
  by (simp add: generate_alerts_eq of_type_frame_alerts_face of_type_frame_alerts_object
      comp_def map_replicate_const)

theorem face_and_object_alerts_instantaneous_witness:
  "length (of_type ''FACE_MISSING'' (fst (generate_alerts
      \<lparr>arg_session_id = ''s1'', arg_frame_idx = 10, arg_t = 1 / 3, arg_frame = (7::nat),
       arg_evidence_dir = ''logs/evidence/s1'', face_present = PyBool False,
       gaze_direction = PyStr ''center'', mouth_moving = PyBool False, multiple_faces = False,
       num_faces = PyInt 1, object_list = [PyDict [(''label'', PyStr ''phone'')]]\<rparr>
      (demo_analyzer no_detectors) demo_fs))) = 1
   \<and> length (of_type ''OBJECT_DETECTED'' (fst (generate_alerts
      \<lparr>arg_session_id = ''s1'', arg_frame_idx = 10, arg_t = 1 / 3, arg_frame = (7::nat),
       arg_evidence_dir = ''logs/evidence/s1'', face_present = PyBool False,
       gaze_direction = PyStr ''center'', mouth_moving = PyBool False, multiple_faces = False,
       num_faces = PyInt 1, object_list = [PyDict [(''label'', PyStr ''phone'')]]\<rparr>
      (demo_analyzer no_detectors) demo_fs))) = 1
   \<and> length (fst (generate_alerts
      \<lparr>arg_session_id = ''s1'', arg_frame_idx = 10, arg_t = 1 / 3, arg_frame = (7::nat),
       arg_evidence_dir = ''logs/evidence/s1'', face_present = PyBool False,
       gaze_direction = PyStr ''center'', mouth_moving = PyBool False, multiple_faces = False,
       num_faces = PyInt 1, object_list = [PyDict [(''label'', PyStr ''phone'')]]\<rparr>
      (demo_analyzer no_detectors) demo_fs)) = 2"
proof -
  let ?a = "\<lparr>arg_session_id = ''s1'', arg_frame_idx = 10, arg_t = 1 / 3, arg_frame = (7::nat),
       arg_evidence_dir = ''logs/evidence/s1'', face_present = PyBool False,
       gaze_direction = PyStr ''center'', mouth_moving = PyBool False, multiple_faces = False,
       num_faces = PyInt 1, object_list = [PyDict [(''label'', PyStr ''phone'')]]\<rparr>"
  let ?r = "fst (generate_alerts ?a (demo_analyzer no_detectors) demo_fs)"
  from face_and_object_alerts_instantaneous [of ?a "demo_analyzer no_detectors" demo_fs]
  have "map frame_index (of_type ''FACE_MISSING'' ?r) = [10]"
    and "map details (of_type ''OBJECT_DETECTED'' ?r) = [PyDict [(''label'', PyStr ''phone'')]]"
    by simp_all
  then have "length (of_type ''FACE_MISSING'' ?r) = 1"
    and "length (of_type ''OBJECT_DETECTED'' ?r) = 1"
    using length_map [of frame_index "of_type ''FACE_MISSING'' ?r"]
      length_map [of details "of_type ''OBJECT_DETECTED'' ?r"]
    by simp_all
  moreover have "length ?r = 2"
    by (simp add: demo_defs run_defs)
  ultimately show ?thesis by simp
qed

section \<open>When the loop reads the whole video\<close>

lemma reliable_detect_face:
  assumes "reliable E self"
  shows "\<exists>v. detect_face self frame = Inr v"
  using assms
  by (auto simp: reliable_def returns_always_def detect_face_def split: option.splits)

lemma reliable_track_eyes:
  assumes "reliable E self"
  shows "\<exists>v. track_eyes self frame = Inr v"
proof (cases "eye_tracker self")
  case None
  then show ?thesis by (simp add: track_eyes_def)
next
  case (Some d)
  with assms have "\<forall>frame. \<exists>v w. d frame = Inr v \<and> unpack_first_of_two v = Inr w"
    by (simp add: reliable_def)
  then obtain v w where "d frame = Inr v" and "unpack_first_of_two v = Inr w"
    by blast
  with Some show ?thesis by (simp add: track_eyes_def and_then_def)
qed

lemma reliable_monitor_mouth:
  assumes "reliable E self"
  shows "\<exists>v. monitor_mouth self frame = Inr v"
  using assms
  by (auto simp: reliable_def returns_always_def monitor_mouth_def split: option.splits)

lemma reliable_detect_objects:
  assumes "reliable E self"
  shows "\<exists>v. detect_objects E self p frame = Inr v"
proof (cases "object_detector self")
  case None
  then show ?thesis by (simp add: detect_objects_def)
next
  case (Some d)
  with assms have "\<forall>frame. \<exists>v. d frame = Inr v" and nz: "OBJ_DETECT_EVERY (K E) \<noteq> 0"
    by (simp_all add: reliable_def returns_always_def)
  then obtain v where "d frame = Inr v" by blast
  note this nz
  with Some show ?thesis by (simp add: detect_objects_def and_then_def py_mod_def)
qed

lemma reliable_detect_multiple_faces:
  assumes "reliable E self"
  shows "\<exists>v. detect_multiple_faces E self p frame held = Inr v"
proof (cases "multi_face_detector self")
  case None
  then show ?thesis by (simp add: detect_multiple_faces_def)
next
  case (Some d)
  with assms have "\<forall>frame. \<exists>v. d frame = Inr v" and nz: "MF_DETECT_EVERY (K E) \<noteq> 0"
    by (simp_all add: reliable_def returns_always_def)
  then obtain v where "d frame = Inr v" by blast
  note this nz
  with Some show ?thesis
    by (simp add: detect_multiple_faces_def and_then_def py_mod_def Let_def)
qed

lemma reliable_generate_alerts:
  "reliable E (fst (snd (generate_alerts a self fs))) = reliable E self"
  by (simp add: reliable_def generate_alerts_eq)

lemma reliable_process_frame:
  assumes "reliable E (st_self s)"
  shows "\<exists>s'. process_frame E sid rate ed raw s = Inr s' \<and> reliable E (st_self s')"
proof (cases "frame_idx s mod FRAME_STRIDE (K E) = 0")
  case False
  with assms show ?thesis
    by (simp add: process_frame_def and_then_def py_mod_def reliable_def)
next
  case True
  let ?f = "downscale E raw"
  from assms have nz: "FRAME_STRIDE (K E) \<noteq> 0" by (simp add: reliable_def)
  from reliable_detect_face [OF assms] obtain face where
    1: "detect_face (st_self s) ?f = Inr face" by blast
  from reliable_track_eyes [OF assms] obtain gaze where
    2: "track_eyes (st_self s) ?f = Inr gaze" by blast
  from reliable_monitor_mouth [OF assms] obtain mouth where
    3: "monitor_mouth (st_self s) ?f = Inr mouth" by blast
  from reliable_detect_objects [OF assms] obtain objs where
    4: "detect_objects E (st_self s) (processed_idx s) ?f = Inr objs" by blast
  from reliable_detect_multiple_faces [OF assms] obtain faces multi where
    5: "detect_multiple_faces E (st_self s) (processed_idx s) ?f (last_faces s, last_multi s)
          = Inr (faces, multi)"
    by (metis surj_pair)
  from True nz 1 2 3 4 5 assms show ?thesis
    by (simp add: process_frame_def and_then_def py_mod_def Let_def split_beta
        reliable_generate_alerts)
qed

lemma reliable_frame_loop:
  assumes "reliable E (st_self s)"
  shows "fst (frame_loop E sid rate ed frames s) = None"
  using assms
proof (induction frames arbitrary: s)
  case Nil
  show ?case by simp
next
  case (Cons raw rest)
  from reliable_process_frame [OF Cons.prems] obtain s' where
    "process_frame E sid rate ed raw s = Inr s'" and "reliable E (st_self s')"
    by blast
  with Cons.IH [of s'] show ?case by simp
qed

section \<open>Frame sampling\<close>

lemma advance_simps [simp]:
  "frame_idx (advance s a) = frame_idx s + 1"
  "processed_idx (advance s a) = processed_idx s + 1"
  "last_faces (advance s a) = num_faces a"
  "last_multi (advance s a) = multiple_faces a"
  "last_objects (advance s a) = object_list a"
  "loop_alerts (advance s a) = loop_alerts s @ fst (generate_alerts a (st_self s) (st_fs s))"
  "st_self (advance s a) = fst (snd (generate_alerts a (st_self s) (st_fs s)))"
  "st_fs (advance s a) = snd (snd (generate_alerts a (st_self s) (st_fs s)))"
  "submitted (advance s a) = submitted s @ [a]"
  by (simp_all add: advance_def)

lemma process_frame_frame_idx:
  assumes "process_frame E sid rate ed raw s = Inr s'"
  shows "frame_idx s' = frame_idx s + 1"
  using process_frame_Inr [OF assms] by (auto split: if_splits)

lemma frame_loop_complete_frame_idx:
  assumes "frame_loop E sid rate ed frames s0 = (None, s)"
  shows "frame_idx s = frame_idx s0 + length frames"
  using assms
proof (induction frames arbitrary: s0)
  case Nil
  then show ?case by simp
next
  case (Cons raw rest)
  then obtain s1 where step: "process_frame E sid rate ed raw s0 = Inr s1"
    and rest: "frame_loop E sid rate ed rest s1 = (None, s)"
    by (auto split: sum.splits)
  from Cons.IH [OF rest] process_frame_frame_idx [OF step] show ?case by simp
qed

lemma sampled_init: "sampled E (loop_init self fs)"
  by (simp add: sampled_def loop_init_def)

lemma sampled_step:
  assumes "sampled E s" and "process_frame E sid rate ed raw s = Inr s'"
  shows "sampled E s'"
proof -
  from process_frame_Inr [OF assms(2)] have nz: "FRAME_STRIDE (K E) \<noteq> 0"
    and cases: "if frame_idx s mod FRAME_STRIDE (K E) \<noteq> 0
                then s' = s\<lparr>frame_idx := frame_idx s + 1\<rparr>
                else \<exists>a. detected E sid rate ed raw s a \<and> s' = advance s a"
    by simp_all
  show ?thesis
  proof (cases "frame_idx s mod FRAME_STRIDE (K E) = 0")
    case False
    with cases have "s' = s\<lparr>frame_idx := frame_idx s + 1\<rparr>" by simp
    with assms(1) False show ?thesis
      by (simp add: sampled_def dvd_eq_mod_eq_0)
  next
    case True
    with cases obtain a where "detected E sid rate ed raw s a" and "s' = advance s a"
      by auto
    with assms(1) True show ?thesis
      by (simp add: sampled_def dvd_eq_mod_eq_0 detected_def)
  qed
qed

lemma frame_loop_sampled:
  assumes "frame_loop E sid rate ed frames (loop_init self fs) = (r, s)"
  shows "sampled E s"
  using assms sampled_init
  by (rule frame_loop_invariant) (rule sampled_step)

lemma ceil_div_step:
  fixes F S :: nat
  assumes "0 < S"
  shows "(F + S - 1) div S = F div S + (if S dvd F then 0 else 1)"
proof -
  define q where "q = F div S"
  define r where "r = F mod S"
  have F: "F = r + q * S" by (simp add: q_def r_def)
  have r: "r < S" using assms by (simp add: r_def)
  have d: "S dvd F \<longleftrightarrow> r = 0" by (simp add: r_def dvd_eq_mod_eq_0)
  show ?thesis
  proof (cases "r = 0")
    case True
    with F assms have e: "F + S - 1 = (S - 1) + q * S" by simp
    have "((S - 1) + q * S) div S = q + (S - 1) div S"
      using assms by (intro div_mult_self1) simp
    moreover have "(S - 1) div S = 0" using assms by simp
    ultimately have "(F + S - 1) div S = q" unfolding e by (simp only: add_0_right)
    with d True show ?thesis by (simp add: q_def)
  next
    case False
    with F assms have e: "F + S - 1 = (r - 1) + (q + 1) * S" by simp
    have "((r - 1) + (q + 1) * S) div S = (q + 1) + (r - 1) div S"
      using assms by (intro div_mult_self1) simp
    moreover have "(r - 1) div S = 0" using r by simp
    ultimately have "(F + S - 1) div S = q + 1" unfolding e by (simp only: add_0_right)
    with d False show ?thesis by (simp add: q_def)
  qed
qed

lemma length_multiples:
  fixes F S :: nat
  assumes "0 < S"
  shows "length (filter (\<lambda>i. S dvd i) [0..<F]) = (F + S - 1) div S"
proof (induction F)
  case 0
  from assms show ?case by simp
next
  case (Suc F)
  have "(Suc F + S - 1) div S = F div S + 1"
    using assms by simp
  with Suc ceil_div_step [OF assms, of F] show ?case by simp
qed

lemma ceiling_nat_div:
  fixes F S :: nat
  assumes "0 < S"
  shows "\<lceil>real F / real S\<rceil> = int ((F + S - 1) div S)"
proof -
  define q where "q = F div S"
  define r where "r = F mod S"
  have F: "F = r + q * S" by (simp add: q_def r_def)
  have r: "r < S" using assms by (simp add: r_def)
  have d: "S dvd F \<longleftrightarrow> r = 0" by (simp add: r_def dvd_eq_mod_eq_0)
  have n: "(F + S - 1) div S = q + (if r = 0 then 0 else 1)"
    using ceil_div_step [OF assms, of F] d by (simp add: q_def)
  have S: "0 < real S" using assms by simp
  have x: "real F / real S = real q + real r / real S"
    using S by (simp add: F field_simps)
  show ?thesis
  proof (cases "r = 0")
    case True
    with x n show ?thesis by simp
  next
    case False
    then have "0 < real r / real S" using S by simp
    moreover have "real r / real S < 1" using r S by simp
    ultimately have "\<lceil>real q + real r / real S\<rceil> = int q + 1"
      by (intro ceiling_unique) simp_all
    with x n False show ?thesis by simp
  qed
qed

text \<open>
  C6. When the loop has read all \<open>F\<close> frames of the video, \<^verbatim>\<open>_generate_alerts\<close> has been called
  for the raw frame indices that are the multiples of the stride \<open>S\<close> below \<open>F\<close>, in
  increasing order and once each, which makes \<open>\<lceil>F / S\<rceil>\<close> calls. The loop reads all frames
  unless a detector raises or a constant is zero (\<open>reliable_frame_loop\<close>). The stride of the
  source is 5; with a stride of 0 the first frame raises ZeroDivisionError, so the loop ends
  normally only on an empty video.
\<close>

theorem stride_sampling:
  assumes "frame_loop E sid rate ed frames (loop_init self fs) = (None, s)"
  shows "map arg_frame_idx (submitted s) =
           filter (\<lambda>i. FRAME_STRIDE (K E) dvd i) [0..<length frames]
       \<and> int (length (submitted s)) = \<lceil>real (length frames) / real (FRAME_STRIDE (K E))\<rceil>
       \<and> frame_idx s = length frames"
proof -
  from frame_loop_complete_frame_idx [OF assms]
  have idx: "frame_idx s = length frames" by (simp add: loop_init_def)
  from frame_loop_sampled [OF assms] idx
  have sub: "map arg_frame_idx (submitted s) =
               filter (\<lambda>i. FRAME_STRIDE (K E) dvd i) [0..<length frames]"
    by (simp add: sampled_def)
  have "int (length (submitted s)) = \<lceil>real (length frames) / real (FRAME_STRIDE (K E))\<rceil>"
  proof (cases "FRAME_STRIDE (K E) = 0")
    case True
    have "frames = []"
    proof (cases frames)
      case (Cons raw rest)
      with assms True show ?thesis
        by (simp add: process_frame_def py_mod_def and_then_def)
    qed simp
    with assms show ?thesis by (auto simp: loop_init_def)
  next
    case False
    then have pos: "0 < FRAME_STRIDE (K E)" by simp
    from sub have "length (submitted s) =
        length (filter (\<lambda>i. FRAME_STRIDE (K E) dvd i) [0..<length frames])"
      using length_map [of arg_frame_idx "submitted s"] by simp
    with length_multiples [OF pos] ceiling_nat_div [OF pos] show ?thesis by simp
  qed
  with sub idx show ?thesis by simp
qed

theorem stride_sampling_witness:
  "fst (frame_loop (demo_env [] 1) ''s1'' 30 ''logs/evidence/s1'' [0, 1, 2, 3, 4, 5, 6, 7, 8, 9, 10]
         (loop_init (demo_analyzer no_detectors) demo_fs)) = None
   \<and> map arg_frame_idx (submitted (snd (frame_loop (demo_env [] 1) ''s1'' 30 ''logs/evidence/s1''
         [0, 1, 2, 3, 4, 5, 6, 7, 8, 9, 10] (loop_init (demo_analyzer no_detectors) demo_fs))))
       = [0, 5, 10]"
proof -
  let ?run = "frame_loop (demo_env [] 1) ''s1'' 30 ''logs/evidence/s1''
         [0, 1, 2, 3, 4, 5, 6, 7, 8, 9, 10] (loop_init (demo_analyzer no_detectors) demo_fs)"
  have ended: "fst ?run = None"
    by (simp add: demo_defs run_defs)
  then have "?run = (None, snd ?run)"
    by (simp add: prod_eq_iff)
  from stride_sampling [OF this, THEN conjunct1]
  have "map arg_frame_idx (submitted (snd ?run)) =
          filter (\<lambda>i. FRAME_STRIDE (K (demo_env [] 1)) dvd i)
            [0..<length [0, 1, 2, 3, 4, 5, 6, 7, 8, 9, 10::nat]]" .
  also have "\<dots> = filter (\<lambda>i. 5 dvd i) [0..<11::nat]"
  proof -
    have k: "FRAME_STRIDE (K (demo_env [] 1)) = 5" by (simp add: demo_defs)
    have l: "length [0, 1, 2, 3, 4, 5, 6, 7, 8, 9, 10::nat] = 11" by simp
    show ?thesis by (simp only: k l)
  qed
  also have "\<dots> = [0, 5, 10]"
    by code_simp
  finally show ?thesis using ended by simp
qed

section \<open>Detector cadence\<close>

lemma detect_objects_Inr:
  assumes "detect_objects E self p frame = Inr objs"
  shows "(p mod OBJ_DETECT_EVERY (K E) \<noteq> 0 \<longrightarrow> objs = [])
       \<and> (case object_detector self of
            None \<Rightarrow> objs = []
          | Some d \<Rightarrow>
              p mod OBJ_DETECT_EVERY (K E) \<noteq> 0 \<or>
              (\<exists>res. d frame = Inr res \<and> objs = (case res of PyList xs \<Rightarrow> xs | _ \<Rightarrow> [])))"
  using assms
  by (auto simp: detect_objects_def and_then_def py_mod_def
      split: option.splits sum.splits if_splits)

lemma detect_multiple_faces_Inr:
  assumes "detect_multiple_faces E self p frame held = Inr (faces, multi)"
  shows "(p mod MF_DETECT_EVERY (K E) \<noteq> 0 \<longrightarrow> (faces, multi) = held)
       \<and> (case multi_face_detector self of
            None \<Rightarrow> (faces, multi) = held
          | Some d \<Rightarrow>
              p mod MF_DETECT_EVERY (K E) \<noteq> 0 \<or>
              (\<exists>mf. d frame = Inr mf
                 \<and> faces = (if isinstance_int mf then mf else PyInt 1)
                 \<and> multi = (1 < int_value faces)))"
  using assms
  by (auto simp: detect_multiple_faces_def and_then_def py_mod_def Let_def
      split: option.splits sum.splits if_splits)

lemma generate_alerts_detectors [simp]:
  "multi_face_detector (fst (snd (generate_alerts a self fs))) = multi_face_detector self"
  "object_detector (fst (snd (generate_alerts a self fs))) = object_detector self"
  "face_detector (fst (snd (generate_alerts a self fs))) = face_detector self"
  "eye_tracker (fst (snd (generate_alerts a self fs))) = eye_tracker self"
  "mouth_monitor (fst (snd (generate_alerts a self fs))) = mouth_monitor self"
  "logs_dir (fst (snd (generate_alerts a self fs))) = logs_dir self"
  "evidence_root (fst (snd (generate_alerts a self fs))) = evidence_root self"
  "audio_enabled (fst (snd (generate_alerts a self fs))) = audio_enabled self"
  by (simp_all add: generate_alerts_eq)

lemma back_to_cadence:
  fixes k M :: nat
  assumes "k mod M \<noteq> 0"
  shows "0 < k" and "k - k mod M = (k - 1) - (k - 1) mod M" and "k - k mod M < k"
proof -
  from assms show pos: "0 < k" by (cases k) auto
  show "k - k mod M = (k - 1) - (k - 1) mod M"
  proof (cases "M = 0")
    case True
    then show ?thesis by simp
  next
    case False
    from assms have "(k - 1) mod M = k mod M - 1"
      using pos False by (metis mod_Suc Suc_pred diff_Suc_1 )
    with assms pos show ?thesis by simp
  qed
  from assms pos show "k - k mod M < k" by simp
qed

lemma cadence_inv_init: "cadence_inv E self (loop_init self fs)"
  by (simp add: cadence_inv_def loop_init_def)

lemma cadence_inv_step:
  assumes inv: "cadence_inv E self s" and step: "process_frame E sid rate ed raw s = Inr s'"
  shows "cadence_inv E self s'"
proof (cases "frame_idx s mod FRAME_STRIDE (K E) = 0")
  case False
  with process_frame_Inr [OF step] have "s' = s\<lparr>frame_idx := frame_idx s + 1\<rparr>" by simp
  with inv show ?thesis by (simp add: cadence_inv_def)
next
  case True
  with process_frame_Inr [OF step] obtain a where
    det: "detected E sid rate ed raw s a" and s': "s' = advance s a"
    by auto
  let ?M = "MF_DETECT_EVERY (K E)"
  let ?O = "OBJ_DETECT_EVERY (K E)"
  let ?sub = "submitted s"
  let ?n = "length ?sub"
  from inv have n: "?n = processed_idx s"
    and mfd: "multi_face_detector (st_self s) = multi_face_detector self"
    and od: "object_detector (st_self s) = object_detector self"
    and lf: "last_faces s = (if ?sub = [] then PyInt 1 else num_faces (last ?sub))"
    and lm: "last_multi s = (if ?sub = [] then False else multiple_faces (last ?sub))"
    and old: "\<And>k. k < ?n \<Longrightarrow>
         num_faces (?sub ! (k - k mod ?M)) = num_faces (?sub ! k)
       \<and> multiple_faces (?sub ! (k - k mod ?M)) = multiple_faces (?sub ! k)
       \<and> (k mod ?O \<noteq> 0 \<longrightarrow> object_list (?sub ! k) = [])
       \<and> detection_frame E self k (?sub ! k)"
    by (simp_all add: cadence_inv_def)
  from det have objs: "detect_objects E (st_self s) ?n (arg_frame a) = Inr (object_list a)"
    and faces: "detect_multiple_faces E (st_self s) ?n (arg_frame a) (last_faces s, last_multi s)
                  = Inr (num_faces a, multiple_faces a)"
    by (simp_all add: detected_def n)
  note O = detect_objects_Inr [OF objs, unfolded od]
  note M = detect_multiple_faces_Inr [OF faces, unfolded mfd]
  have new_frame: "detection_frame E self ?n a"
  proof -
    have "case multi_face_detector self of
        None \<Rightarrow> num_faces a = PyInt 1 \<and> \<not> multiple_faces a
      | Some d \<Rightarrow> ?n mod ?M \<noteq> 0 \<or>
          (\<exists>mf. d (arg_frame a) = Inr mf
             \<and> num_faces a = (if isinstance_int mf then mf else PyInt 1)
             \<and> multiple_faces a = (1 < int_value (num_faces a)))"
    proof (cases "multi_face_detector self")
      case None
      with M have held: "num_faces a = last_faces s" "multiple_faces a = last_multi s" by simp_all
      show ?thesis
      proof (cases "?sub = []")
        case True
        with held lf lm None show ?thesis by simp
      next
        case False
        then have "?n - 1 < ?n" by simp
        from old [OF this] None have "num_faces (?sub ! (?n - 1)) = PyInt 1"
          "\<not> multiple_faces (?sub ! (?n - 1))"
          by (simp_all add: detection_frame_def)
        with held lf lm False None show ?thesis by (simp add: last_conv_nth)
      qed
    next
      case (Some d)
      with M show ?thesis by auto
    qed
    with O show ?thesis by (simp add: detection_frame_def)
  qed
  have new_held: "num_faces ((?sub @ [a]) ! (?n - ?n mod ?M)) = num_faces a
      \<and> multiple_faces ((?sub @ [a]) ! (?n - ?n mod ?M)) = multiple_faces a"
  proof (cases "?n mod ?M = 0")
    case True
    then show ?thesis by simp
  next
    case False
    note b = back_to_cadence [OF False]
    from b(1) have ne: "?sub \<noteq> []" by auto
    from M False have "num_faces a = last_faces s" "multiple_faces a = last_multi s"
      by simp_all
    with lf lm ne have "num_faces a = num_faces (?sub ! (?n - 1))"
      "multiple_faces a = multiple_faces (?sub ! (?n - 1))"
      by (simp_all add: last_conv_nth)
    moreover from b(1) have "?n - 1 < ?n" by simp
    from old [OF this] have "num_faces (?sub ! (?n - ?n mod ?M)) = num_faces (?sub ! (?n - 1))"
      "multiple_faces (?sub ! (?n - ?n mod ?M)) = multiple_faces (?sub ! (?n - 1))"
      by (simp_all add: b(2))
    ultimately show ?thesis using b(3) by (simp add: nth_append)
  qed
  have all: "\<And>k. k < Suc ?n \<Longrightarrow>
         num_faces ((?sub @ [a]) ! (k - k mod ?M)) = num_faces ((?sub @ [a]) ! k)
       \<and> multiple_faces ((?sub @ [a]) ! (k - k mod ?M)) = multiple_faces ((?sub @ [a]) ! k)
       \<and> (k mod ?O \<noteq> 0 \<longrightarrow> object_list ((?sub @ [a]) ! k) = [])
       \<and> detection_frame E self k ((?sub @ [a]) ! k)"
  proof -
    fix k assume "k < Suc ?n"
    then consider "k < ?n" | "k = ?n" by linarith
    then show "num_faces ((?sub @ [a]) ! (k - k mod ?M)) = num_faces ((?sub @ [a]) ! k)
       \<and> multiple_faces ((?sub @ [a]) ! (k - k mod ?M)) = multiple_faces ((?sub @ [a]) ! k)
       \<and> (k mod ?O \<noteq> 0 \<longrightarrow> object_list ((?sub @ [a]) ! k) = [])
       \<and> detection_frame E self k ((?sub @ [a]) ! k)"
    proof cases
      case 1
      then have "k - k mod ?M < ?n" by simp
      with 1 old [OF 1] show ?thesis by (simp add: nth_append)
    next
      case 2
      with new_held new_frame O show ?thesis by simp
    qed
  qed
  from s' n mfd od all show ?thesis
    by (simp add: cadence_inv_def)
qed

lemma frame_loop_cadence_inv:
  assumes "frame_loop E sid rate ed frames (loop_init self fs) = (r, s)"
  shows "cadence_inv E self s"
  using assms cadence_inv_init
  by (rule frame_loop_invariant) (rule cadence_inv_step)

text \<open>
  C4, as the code has it. Let \<open>k\<close> be the processed index of a call of \<^verbatim>\<open>_generate_alerts\<close>.
  The face count and the multiple-faces flag of the call are those of the latest call at a
  multiple of the multi-face cadence, where they were computed from what the detector
  returned: the multi-face result is held over. The object list is not: off the object
  cadence the list of the call is empty, because line 133 empties it on every processed
  frame; at a multiple of the cadence it is what the detector returned.
\<close>

theorem multi_face_held_over_objects_not:
  assumes "frame_loop E sid rate ed frames (loop_init self fs) = (r, s)"
    and "k < length (submitted s)"
  shows "num_faces (submitted s ! k) =
           num_faces (submitted s ! (k - k mod MF_DETECT_EVERY (K E)))
       \<and> multiple_faces (submitted s ! k) =
           multiple_faces (submitted s ! (k - k mod MF_DETECT_EVERY (K E)))
       \<and> (k mod OBJ_DETECT_EVERY (K E) \<noteq> 0 \<longrightarrow> object_list (submitted s ! k) = [])
       \<and> detection_frame E self k (submitted s ! k)"
  using frame_loop_cadence_inv [OF assms(1)] assms(2)
  by (simp add: cadence_inv_def)

text \<open>
  Six raw frames, so two processed frames (raw 0 and 5); the object detector reports a phone
  on every frame it is given. The second processed frame is off the object cadence and off
  the multi-face cadence.
\<close>

lemma phone_run:
  "fst (frame_loop (demo_env [] 1) ''s1'' 30 ''logs/evidence/s1'' [0, 1, 2, 3, 4, 5]
         (loop_init (demo_analyzer (no_detectors\<lparr>
            multi_face_detector := Some (\<lambda>f. Inr (PyInt 2)),
            object_detector := Some (\<lambda>f. Inr (PyList [PyStr ''phone'']))\<rparr>)) demo_fs)) = None
   \<and> map object_list (submitted (snd (frame_loop (demo_env [] 1) ''s1'' 30 ''logs/evidence/s1''
         [0, 1, 2, 3, 4, 5]
         (loop_init (demo_analyzer (no_detectors\<lparr>
            multi_face_detector := Some (\<lambda>f. Inr (PyInt 2)),
            object_detector := Some (\<lambda>f. Inr (PyList [PyStr ''phone'']))\<rparr>)) demo_fs))))
       = [[PyStr ''phone''], []]
   \<and> map num_faces (submitted (snd (frame_loop (demo_env [] 1) ''s1'' 30 ''logs/evidence/s1''
         [0, 1, 2, 3, 4, 5]
         (loop_init (demo_analyzer (no_detectors\<lparr>
            multi_face_detector := Some (\<lambda>f. Inr (PyInt 2)),
            object_detector := Some (\<lambda>f. Inr (PyList [PyStr ''phone'']))\<rparr>)) demo_fs))))
       = [PyInt 2, PyInt 2]"
  by (simp add: demo_defs run_defs)

theorem multi_face_held_over_objects_not_witness:
  "length (submitted (snd (frame_loop (demo_env [] 1) ''s1'' 30 ''logs/evidence/s1''
         [0, 1, 2, 3, 4, 5]
         (loop_init (demo_analyzer (no_detectors\<lparr>
            multi_face_detector := Some (\<lambda>f. Inr (PyInt 2)),
            object_detector := Some (\<lambda>f. Inr (PyList [PyStr ''phone'']))\<rparr>)) demo_fs)))) = 2
   \<and> num_faces (submitted (snd (frame_loop (demo_env [] 1) ''s1'' 30 ''logs/evidence/s1''
         [0, 1, 2, 3, 4, 5]
         (loop_init (demo_analyzer (no_detectors\<lparr>
            multi_face_detector := Some (\<lambda>f. Inr (PyInt 2)),
            object_detector := Some (\<lambda>f. Inr (PyList [PyStr ''phone'']))\<rparr>)) demo_fs))) ! 1)
       = PyInt 2
   \<and> object_list (submitted (snd (frame_loop (demo_env [] 1) ''s1'' 30 ''logs/evidence/s1''
         [0, 1, 2, 3, 4, 5]
         (loop_init (demo_analyzer (no_detectors\<lparr>
            multi_face_detector := Some (\<lambda>f. Inr (PyInt 2)),
            object_detector := Some (\<lambda>f. Inr (PyList [PyStr ''phone'']))\<rparr>)) demo_fs))) ! 1)
       = []"
proof -
  let ?run = "frame_loop (demo_env [] 1) ''s1'' 30 ''logs/evidence/s1'' [0, 1, 2, 3, 4, 5]
         (loop_init (demo_analyzer (no_detectors\<lparr>
            multi_face_detector := Some (\<lambda>f. Inr (PyInt 2)),
            object_detector := Some (\<lambda>f. Inr (PyList [PyStr ''phone'']))\<rparr>)) demo_fs)"
  have run: "?run = (fst ?run, snd ?run)" by simp
  from phone_run have objs: "map object_list (submitted (snd ?run)) = [[PyStr ''phone''], []]"
    and faces: "map num_faces (submitted (snd ?run)) = [PyInt 2, PyInt 2]"
    by simp_all
  from arg_cong [OF objs, of length] have len: "length (submitted (snd ?run)) = 2" by simp
  then have k: "1 < length (submitted (snd ?run))" by simp
  have cadence: "MF_DETECT_EVERY (K (demo_env [] 1)) = 4" "OBJ_DETECT_EVERY (K (demo_env [] 1)) = 10"
    by (simp_all add: demo_defs)
  from multi_face_held_over_objects_not [OF run k]
  have "num_faces (submitted (snd ?run) ! 1) = num_faces (submitted (snd ?run) ! 0)"
    and "object_list (submitted (snd ?run) ! 1) = []"
    by (simp_all add: cadence)
  moreover from arg_cong [OF faces, of "\<lambda>xs. xs ! 0"] len
  have "num_faces (submitted (snd ?run) ! 0) = PyInt 2" by simp
  ultimately show ?thesis using len by simp
qed

text \<open>
  The claim as stated fails for the object detector: on the second processed frame object
  detection is skipped, the result computed on the first was a phone, and the list used for
  alert evaluation is empty.
\<close>

theorem object_result_not_held_counterexample:
  "\<not> (object_list (submitted (snd (frame_loop (demo_env [] 1) ''s1'' 30 ''logs/evidence/s1''
         [0, 1, 2, 3, 4, 5]
         (loop_init (demo_analyzer (no_detectors\<lparr>
            multi_face_detector := Some (\<lambda>f. Inr (PyInt 2)),
            object_detector := Some (\<lambda>f. Inr (PyList [PyStr ''phone'']))\<rparr>)) demo_fs))) ! 1)
       = object_list (submitted (snd (frame_loop (demo_env [] 1) ''s1'' 30 ''logs/evidence/s1''
         [0, 1, 2, 3, 4, 5]
         (loop_init (demo_analyzer (no_detectors\<lparr>
            multi_face_detector := Some (\<lambda>f. Inr (PyInt 2)),
            object_detector := Some (\<lambda>f. Inr (PyList [PyStr ''phone'']))\<rparr>)) demo_fs))) ! 0))"
proof -
  let ?run = "frame_loop (demo_env [] 1) ''s1'' 30 ''logs/evidence/s1'' [0, 1, 2, 3, 4, 5]
         (loop_init (demo_analyzer (no_detectors\<lparr>
            multi_face_detector := Some (\<lambda>f. Inr (PyInt 2)),
            object_detector := Some (\<lambda>f. Inr (PyList [PyStr ''phone'']))\<rparr>)) demo_fs)"
  from phone_run have objs: "map object_list (submitted (snd ?run)) = [[PyStr ''phone''], []]"
    by simp
  from arg_cong [OF objs, of length] have len: "length (submitted (snd ?run)) = 2" by simp
  from arg_cong [OF objs, of "\<lambda>xs. xs ! 0"] arg_cong [OF objs, of "\<lambda>xs. xs ! 1"] len
  show ?thesis by simp
qed

section \<open>Debounced alerts\<close>

subsection \<open>One counter\<close>

lemma debounce_False: "0 < th \<Longrightarrow> debounce th c False = (False, 0)"
  by (simp add: debounce_def)

lemma debounce_True_below: "c + 1 < th \<Longrightarrow> debounce th c True = (False, c + 1)"
  by (simp add: debounce_def)

lemma debounce_True_reach: "th \<le> c + 1 \<Longrightarrow> debounce th c True = (True, 0)"
  by (simp add: debounce_def)

lemma length_debounce_run [simp]: "length (debounce_run th c sigs) = length sigs"
  by (induction sigs arbitrary: c) simp_all

lemma debounce_run_append:
  "debounce_run th c (xs @ ys) = debounce_run th c xs @ debounce_run th (debounce_end th c xs) ys"
  by (induction xs arbitrary: c) (simp_all add: debounce_end_def)

lemma debounce_end_snoc:
  "debounce_end th c (xs @ [b]) = snd (debounce th (debounce_end th c xs) b)"
  by (simp add: debounce_end_def)

lemma debounce_run_False:
  assumes "0 < th"
  shows "debounce_run th c (replicate n False @ rest) =
           replicate n False @ debounce_run th (if n = 0 then c else 0) rest"
proof (induction n arbitrary: c)
  case 0
  show ?case by simp
next
  case (Suc n)
  from assms show ?case by (simp add: debounce_False Suc.IH)
qed

lemma debounce_run_True_below:
  assumes "c + n < th"
  shows "debounce_run th c (replicate n True @ rest) =
           replicate n False @ debounce_run th (c + n) rest"
  using assms
proof (induction n arbitrary: c)
  case 0
  show ?case by simp
next
  case (Suc n)
  then have "c + 1 < th" and "(c + 1) + n < th" by simp_all
  with Suc.IH [of "c + 1"] show ?case by (simp add: debounce_True_below)
qed

lemma debounce_run_threshold:
  assumes "0 < th"
  shows "debounce_run th 0 (replicate th True @ rest) =
           replicate (th - 1) False @ True # debounce_run th 0 rest"
proof -
  from assms have "replicate th True = replicate (th - 1) True @ [True]"
    by (cases th) (simp_all add: replicate_append_same)
  then have "debounce_run th 0 (replicate th True @ rest) =
      debounce_run th 0 (replicate (th - 1) True @ True # rest)"
    by simp
  also have "\<dots> = replicate (th - 1) False @ debounce_run th (0 + (th - 1)) (True # rest)"
    using assms by (intro debounce_run_True_below) simp
  also have "\<dots> = replicate (th - 1) False @ True # debounce_run th 0 rest"
    using assms by (simp add: debounce_True_reach)
  finally show ?thesis .
qed

subsection \<open>Picking by flags\<close>

lemma picked_Nil [simp]: "picked xs [] = []" "picked [] flags = []"
  by (simp_all add: picked_def)

lemma picked_Cons [simp]: "picked (x # xs) (b # flags) = (if b then x # picked xs flags else picked xs flags)"
  by (simp add: picked_def)

lemma picked_all_False [simp]: "picked xs (replicate n False) = []"
proof (induction n arbitrary: xs)
  case 0
  show ?case by simp
next
  case (Suc n)
  show ?case by (cases xs) (simp_all add: Suc.IH)
qed

lemma picked_drop: "picked xs (replicate n False @ flags) = picked (drop n xs) flags"
proof (induction n arbitrary: xs)
  case 0
  show ?case by simp
next
  case (Suc n)
  show ?case by (cases xs) (simp_all add: Suc.IH)
qed

lemma picked_at:
  assumes "n < length xs"
  shows "picked xs (replicate n False @ True # flags) = xs ! n # picked (drop (Suc n) xs) flags"
proof -
  from assms have "drop n xs = xs ! n # drop (Suc n) xs"
    by (simp add: Cons_nth_drop_Suc)
  then show ?thesis by (simp add: picked_drop)
qed

lemma picked_snoc:
  assumes "length xs = length flags"
  shows "picked (xs @ [x]) (flags @ [b]) = picked xs flags @ (if b then [x] else [])"
  using assms by (simp add: picked_def)

subsection \<open>The counters in the loop\<close>

lemma counter_generate_alerts:
  "counter k (fst (snd (generate_alerts a self fs))) =
     snd (debounce (threshold k) (counter k self) (signal k a))"
  by (cases k) (simp_all add: generate_alerts_eq)

lemma sustained_frame_alerts:
  "map frame_index (of_type (type_name k)
      (frame_alerts a (fired GazeAway self a) (fired MouthMoving self a) (fired MultiFace self a)))
   = (if fired k self a then [arg_frame_idx a] else [])"
  by (cases k) (simp_all add: frame_alerts_def)

lemma fires_inv_init: "fires_inv k self (loop_init self fs)"
  by (simp add: fires_inv_def loop_init_def debounce_end_def)

lemma fires_inv_step:
  assumes inv: "fires_inv k self s" and step: "process_frame E sid rate ed raw s = Inr s'"
  shows "fires_inv k self s'"
proof (cases "frame_idx s mod FRAME_STRIDE (K E) = 0")
  case False
  with process_frame_Inr [OF step] have "s' = s\<lparr>frame_idx := frame_idx s + 1\<rparr>" by simp
  with inv show ?thesis by (simp add: fires_inv_def)
next
  case True
  with process_frame_Inr [OF step] obtain a where s': "s' = advance s a"
    by auto
  let ?th = "threshold k"
  let ?sigs = "map (signal k) (submitted s)"
  let ?c = "debounce_end ?th (counter k self) ?sigs"
  from inv have c: "counter k (st_self s) = ?c"
    and al: "map frame_index (of_type (type_name k) (loop_alerts s)) =
       map arg_frame_idx (picked (submitted s) (debounce_run ?th (counter k self) ?sigs))"
    by (simp_all add: fires_inv_def)
  have f: "fired k (st_self s) a = fst (debounce ?th ?c (signal k a))"
    by (simp add: fired_def c)
  have "counter k (st_self s') = snd (debounce ?th ?c (signal k a))"
    by (simp add: s' counter_generate_alerts c)
  then have 1: "counter k (st_self s') =
      debounce_end ?th (counter k self) (map (signal k) (submitted s'))"
    by (simp add: s' debounce_end_snoc)
  have "debounce_run ?th (counter k self) (map (signal k) (submitted s')) =
      debounce_run ?th (counter k self) ?sigs @ [fst (debounce ?th ?c (signal k a))]"
    by (simp add: s' debounce_run_append)
  then have "picked (submitted s') (debounce_run ?th (counter k self) (map (signal k) (submitted s')))
      = picked (submitted s) (debounce_run ?th (counter k self) ?sigs)
        @ (if fired k (st_self s) a then [a] else [])"
    by (simp add: s' picked_snoc f)
  moreover have "map frame_index (of_type (type_name k) (loop_alerts s')) =
      map frame_index (of_type (type_name k) (loop_alerts s))
      @ (if fired k (st_self s) a then [arg_frame_idx a] else [])"
    by (simp add: s' generate_alerts_eq sustained_frame_alerts)
  ultimately have 2: "map frame_index (of_type (type_name k) (loop_alerts s')) =
      map arg_frame_idx (picked (submitted s')
        (debounce_run ?th (counter k self) (map (signal k) (submitted s'))))"
    by (simp add: al)
  from 1 2 show ?thesis by (simp add: fires_inv_def)
qed

lemma frame_loop_fires_inv:
  assumes "frame_loop E sid rate ed frames (loop_init self fs) = (r, s)"
  shows "fires_inv k self s"
  using assms fires_inv_init
  by (rule frame_loop_invariant) (rule fires_inv_step)

lemma threshold_pos: "0 < threshold k"
  by (cases k) simp_all

text \<open>Where a counter that starts at rest fires on a burst of the threshold's length.\<close>

lemma one_burst:
  assumes "0 < th" and "0 < a \<or> c = 0"
    and "length xs = a + th + b"
  shows "picked xs (debounce_run th c (replicate a False @ replicate th True @ replicate b False))
         = [xs ! (a + th - 1)]"
proof -
  from assms(2) have c: "(if a = 0 then c else 0) = 0" by auto
  have "debounce_run th c (replicate a False @ replicate th True @ replicate b False) =
      replicate a False @ replicate (th - 1) False @ True # replicate b False"
    using debounce_run_False [OF assms(1), of _ b "[]"]
    by (simp add: debounce_run_False [OF assms(1)] c debounce_run_threshold [OF assms(1)])
  also have "\<dots> = replicate (a + th - 1) False @ True # replicate b False"
    using assms(1) by (simp add: replicate_add [symmetric] del: replicate_add)
  finally have "picked xs (debounce_run th c (replicate a False @ replicate th True @ replicate b False))
      = picked xs (replicate (a + th - 1) False @ True # replicate b False)"
    by simp
  also have "\<dots> = xs ! (a + th - 1) # picked (drop (Suc (a + th - 1)) xs) (replicate b False)"
    using assms(1,3) by (intro picked_at) simp
  finally show ?thesis by simp
qed

lemma two_bursts:
  assumes "0 < th" and "0 < a \<or> c = 0"
    and "length xs = a + 2 * th + b"
  shows "picked xs (debounce_run th c (replicate a False @ replicate (2 * th) True @ replicate b False))
         = [xs ! (a + th - 1), xs ! (a + 2 * th - 1)]"
proof -
  from assms(2) have c: "(if a = 0 then c else 0) = 0" by auto
  have twice: "replicate (2 * th) True = replicate th True @ replicate th True"
    by (simp add: replicate_add [symmetric] mult_2 del: replicate_add)
  have "debounce_run th c (replicate a False @ replicate (2 * th) True @ replicate b False) =
      replicate a False @ replicate (th - 1) False @ True #
        replicate (th - 1) False @ True # replicate b False"
    using debounce_run_False [OF assms(1), of _ b "[]"]
    by (simp add: twice debounce_run_False [OF assms(1)] c debounce_run_threshold [OF assms(1)])
  also have "\<dots> = replicate (a + th - 1) False @ True #
        replicate (th - 1) False @ True # replicate b False"
    using assms(1) by (simp add: replicate_add [symmetric] del: replicate_add)
  finally have "picked xs
        (debounce_run th c (replicate a False @ replicate (2 * th) True @ replicate b False))
      = picked xs (replicate (a + th - 1) False @ True #
          replicate (th - 1) False @ True # replicate b False)"
    by simp
  also have "\<dots> = xs ! (a + th - 1) #
      picked (drop (Suc (a + th - 1)) xs) (replicate (th - 1) False @ True # replicate b False)"
    using assms(1,3) by (intro picked_at) simp
  also have "picked (drop (Suc (a + th - 1)) xs) (replicate (th - 1) False @ True # replicate b False)
      = drop (Suc (a + th - 1)) xs ! (th - 1) #
        picked (drop (Suc (th - 1)) (drop (Suc (a + th - 1)) xs)) (replicate b False)"
    using assms(1,3) by (intro picked_at) simp
  also have "drop (Suc (a + th - 1)) xs ! (th - 1) = xs ! (a + 2 * th - 1)"
  proof -
    from assms(1) have e: "Suc (a + th - 1) + (th - 1) = a + 2 * th - 1" by simp
    from assms(1,3) have "Suc (a + th - 1) \<le> length xs" by simp
    then have "drop (Suc (a + th - 1)) xs ! (th - 1) = xs ! (Suc (a + th - 1) + (th - 1))"
      by (rule nth_drop)
    with e show ?thesis by (simp only:)
  qed
  finally show ?thesis by simp
qed

text \<open>
  C5. Take one of the three debounced signals (gaze away, threshold 3; mouth moving,
  threshold 3; multiple faces, threshold 5) and the calls of \<^verbatim>\<open>_generate_alerts\<close> of one
  session, whose counter for the signal was at rest when the signal came up (a call with
  the signal false came before, or the counter was zero when the session started). If over
  the calls the signal is false, then true for exactly threshold calls in a row, then
  false, exactly one alert of the signal's type is in the alert list, with the frame index of
  the last call of the burst, where the counter reaches the threshold. If the burst is twice
  the threshold long there are exactly two, the first at the threshold-th call of the burst
  and the second at its last call.
\<close>

theorem sustained_signal_alerts:
  assumes "frame_loop E sid rate ed frames (loop_init self fs) = (r, s)"
    and "0 < a \<or> counter k self = 0"
  shows "(map (signal k) (submitted s) =
            replicate a False @ replicate (threshold k) True @ replicate b False
          \<longrightarrow> map frame_index (of_type (type_name k) (loop_alerts s)) =
                [arg_frame_idx (submitted s ! (a + threshold k - 1))])
       \<and> (map (signal k) (submitted s) =
            replicate a False @ replicate (2 * threshold k) True @ replicate b False
          \<longrightarrow> map frame_index (of_type (type_name k) (loop_alerts s)) =
                [arg_frame_idx (submitted s ! (a + threshold k - 1)),
                 arg_frame_idx (submitted s ! (a + 2 * threshold k - 1))])"
proof -
  let ?th = "threshold k"
  from frame_loop_fires_inv [OF assms(1), of k]
  have al: "map frame_index (of_type (type_name k) (loop_alerts s)) =
      map arg_frame_idx (picked (submitted s)
        (debounce_run ?th (counter k self) (map (signal k) (submitted s))))"
    by (simp add: fires_inv_def)
  have one: "map frame_index (of_type (type_name k) (loop_alerts s)) =
      [arg_frame_idx (submitted s ! (a + ?th - 1))]"
    if p: "map (signal k) (submitted s) = replicate a False @ replicate ?th True @ replicate b False"
  proof -
    from arg_cong [OF p, of length] have "length (submitted s) = a + ?th + b" by simp
    from one_burst [OF threshold_pos assms(2) this] show ?thesis
      by (simp add: al p)
  qed
  have two: "map frame_index (of_type (type_name k) (loop_alerts s)) =
      [arg_frame_idx (submitted s ! (a + ?th - 1)), arg_frame_idx (submitted s ! (a + 2 * ?th - 1))]"
    if p: "map (signal k) (submitted s) =
      replicate a False @ replicate (2 * ?th) True @ replicate b False"
  proof -
    from arg_cong [OF p, of length] have "length (submitted s) = a + 2 * ?th + b" by simp
    from two_bursts [OF threshold_pos assms(2) this] show ?thesis
      by (simp add: al p)
  qed
  from one two show ?thesis by blast
qed

text \<open>
  Twenty-one raw frames, so five processed frames (raw 0, 5, 10, 15, 20); the eye tracker
  reports a gaze to the left on the raw frames 5 to 19. The one GAZE\_AWAY alert is at raw
  frame 15.
\<close>

lemma gaze_run:
  "map (signal GazeAway) (submitted (snd (frame_loop (demo_env [] 1) ''s1'' 30 ''logs/evidence/s1''
       [0, 1, 2, 3, 4, 5, 6, 7, 8, 9, 10, 11, 12, 13, 14, 15, 16, 17, 18, 19, 20]
       (loop_init (demo_analyzer (no_detectors\<lparr>eye_tracker := Some (\<lambda>f.
          Inr (PyTuple [PyStr (if 5 \<le> f \<and> f < 20 then ''left'' else ''center''), PyNone]))\<rparr>))
        demo_fs))))
     = [False, True, True, True, False]
   \<and> map arg_frame_idx (submitted (snd (frame_loop (demo_env [] 1) ''s1'' 30 ''logs/evidence/s1''
       [0, 1, 2, 3, 4, 5, 6, 7, 8, 9, 10, 11, 12, 13, 14, 15, 16, 17, 18, 19, 20]
       (loop_init (demo_analyzer (no_detectors\<lparr>eye_tracker := Some (\<lambda>f.
          Inr (PyTuple [PyStr (if 5 \<le> f \<and> f < 20 then ''left'' else ''center''), PyNone]))\<rparr>))
        demo_fs))))
     = [0, 5, 10, 15, 20]"
  by (simp add: demo_defs run_defs)

theorem sustained_signal_alerts_witness:
  "map frame_index (of_type ''GAZE_AWAY''
     (loop_alerts (snd (frame_loop (demo_env [] 1) ''s1'' 30 ''logs/evidence/s1''
       [0, 1, 2, 3, 4, 5, 6, 7, 8, 9, 10, 11, 12, 13, 14, 15, 16, 17, 18, 19, 20]
       (loop_init (demo_analyzer (no_detectors\<lparr>eye_tracker := Some (\<lambda>f.
          Inr (PyTuple [PyStr (if 5 \<le> f \<and> f < 20 then ''left'' else ''center''), PyNone]))\<rparr>))
        demo_fs))))) = [15]"
proof -
  let ?run = "frame_loop (demo_env [] 1) ''s1'' 30 ''logs/evidence/s1''
       [0, 1, 2, 3, 4, 5, 6, 7, 8, 9, 10, 11, 12, 13, 14, 15, 16, 17, 18, 19, 20]
       (loop_init (demo_analyzer (no_detectors\<lparr>eye_tracker := Some (\<lambda>f.
          Inr (PyTuple [PyStr (if 5 \<le> f \<and> f < 20 then ''left'' else ''center''), PyNone]))\<rparr>))
        demo_fs)"
  have run: "?run = (fst ?run, snd ?run)" by simp
  have before: "0 < (1::nat) \<or> counter GazeAway (demo_analyzer (no_detectors\<lparr>eye_tracker :=
      Some (\<lambda>f. Inr (PyTuple [PyStr (if 5 \<le> f \<and> f < 20 then ''left'' else ''center''),
        PyNone]))\<rparr>)) = 0"
    by simp
  from gaze_run have sigs: "map (signal GazeAway) (submitted (snd ?run)) =
      replicate 1 False @ replicate (threshold GazeAway) True @ replicate 1 False"
    and idx: "map arg_frame_idx (submitted (snd ?run)) = [0, 5, 10, 15, 20]"
    by (simp_all add: numeral_3_eq_3)
  from arg_cong [OF idx, of length] have len: "length (submitted (snd ?run)) = 5" by simp
  from sustained_signal_alerts [OF run before, of 1, THEN conjunct1, rule_format, OF sigs]
  have "map frame_index (of_type ''GAZE_AWAY'' (loop_alerts (snd ?run))) =
      [arg_frame_idx (submitted (snd ?run) ! 3)]"
    by simp
  moreover from arg_cong [OF idx, of "\<lambda>xs. xs ! 3"] len
  have "arg_frame_idx (submitted (snd ?run) ! 3) = 15" by simp
  ultimately show ?thesis by simp
qed

section \<open>Evidence file names\<close>

subsection \<open>Decimal numerals\<close>

lemma of_char_digit_char: "d < 10 \<Longrightarrow> of_char (digit_char d) = 48 + d"
  by (simp add: digit_char_def)

lemma nat_of_digits_snoc:
  "nat_of_digits (ds @ [c]) = nat_of_digits ds * 10 + (of_char c - 48)"
  by (simp add: nat_of_digits_def)

lemma nat_of_digits_str_nat: "nat_of_digits (str_nat n) = n"
proof (induction n rule: str_nat.induct)
  case (1 n)
  show ?case
  proof (cases "n < 10")
    case True
    then have "str_nat n = [digit_char n]" by (subst str_nat.simps) simp
    with True show ?thesis by (simp add: nat_of_digits_def of_char_digit_char)
  next
    case False
    then have "str_nat n = str_nat (n div 10) @ [digit_char (n mod 10)]"
      by (subst str_nat.simps) simp
    with 1 False show ?thesis
      by (simp add: nat_of_digits_snoc of_char_digit_char)
  qed
qed

lemma str_nat_inj:
  assumes "str_nat n = str_nat m"
  shows "n = m"
proof -
  from assms have "nat_of_digits (str_nat n) = nat_of_digits (str_nat m)"
    by (rule arg_cong)
  then show ?thesis by (simp only: nat_of_digits_str_nat)
qed

lemma digit_char_not_underscore: "d < 10 \<Longrightarrow> digit_char d \<noteq> CHR ''_''"
proof
  assume "d < 10" and "digit_char d = CHR ''_''"
  then have "of_char (digit_char d) = (of_char (CHR ''_'') :: nat)" by simp
  with \<open>d < 10\<close> show False by (simp add: of_char_digit_char)
qed

lemma str_nat_no_underscore: "CHR ''_'' \<notin> set (str_nat n)"
proof (induction n rule: str_nat.induct)
  case (1 n)
  show ?case
  proof (cases "n < 10")
    case True
    then have "str_nat n = [digit_char n]" by (subst str_nat.simps) simp
    with True digit_char_not_underscore [of n] show ?thesis by simp
  next
    case False
    then have "str_nat n = str_nat (n div 10) @ [digit_char (n mod 10)]"
      by (subst str_nat.simps) simp
    moreover have "digit_char (n mod 10) \<noteq> CHR ''_''"
      by (rule digit_char_not_underscore) simp
    moreover from 1 False have "CHR ''_'' \<notin> set (str_nat (n div 10))" by simp
    ultimately show ?thesis by simp
  qed
qed

subsection \<open>Names and paths\<close>

lemma split_at_first:
  assumes "c \<notin> set d" and "c \<notin> set d'" and "d @ c # t = d' @ c # t'"
  shows "d = d' \<and> t = t'"
  using assms
proof (induction d arbitrary: d')
  case Nil
  then show ?case by (cases d') auto
next
  case (Cons y ds)
  show ?case
  proof (cases d')
    case Nil
    with Cons.prems show ?thesis by auto
  next
    case (Cons x ds')
    with Cons.prems Cons.IH [of ds'] show ?thesis by auto
  qed
qed

lemma split_at_last:
  assumes "c \<notin> set d" and "c \<notin> set d'" and "t @ c # d = t' @ c # d'"
  shows "t = t' \<and> d = d'"
proof -
  from assms(3) have "rev (t @ c # d) = rev (t' @ c # d')" by simp
  then have "rev d @ c # rev t = rev d' @ c # rev t'" by simp
  with assms(1,2) split_at_first [of c "rev d" "rev d'" "rev t" "rev t'"]
  show ?thesis by simp
qed

lemma evidence_name_inj:
  assumes "evidence_name t n = evidence_name t' n'"
  shows "t = t' \<and> n = n'"
proof -
  from assms have "t @ CHR ''_'' # str_nat n = t' @ CHR ''_'' # str_nat n'"
    by (simp add: evidence_name_def)
  from split_at_last [OF str_nat_no_underscore str_nat_no_underscore this] str_nat_inj
  show ?thesis by blast
qed

lemma tag_of_simps:
  "tag_of ''FACE_MISSING'' = ''face_missing''"
  "tag_of ''GAZE_AWAY'' = ''gaze_away''"
  "tag_of ''MOUTH_MOVEMENT'' = ''mouth''"
  "tag_of ''MULTI_FACE'' = ''multi_face''"
  "tag_of ''OBJECT_DETECTED'' = ''object''"
  by (simp_all add: tag_of_def)

lemma tag_of_inj:
  assumes "ty \<in> alert_types" and "ty' \<in> alert_types" and "tag_of ty = tag_of ty'"
  shows "ty = ty'"
  using assms unfolding alert_types_def
  by (elim insertE emptyE; simp add: tag_of_simps)

lemma keyed_same_path:
  assumes "keyed ed x" and "keyed ed y"
  shows "image_path x = image_path y \<longleftrightarrow> alert_key x = alert_key y"
proof
  assume "image_path x = image_path y"
  with assms have "evidence_name (tag_of (alert_type x)) (frame_index x) =
      evidence_name (tag_of (alert_type y)) (frame_index y)"
    by (simp add: keyed_def path_join_def)
  from evidence_name_inj [OF this]
  have tags: "tag_of (alert_type x) = tag_of (alert_type y)"
    and idx: "frame_index x = frame_index y"
    by simp_all
  from assms have "alert_type x \<in> alert_types" "alert_type y \<in> alert_types"
    by (simp_all add: keyed_def)
  from tag_of_inj [OF this tags] idx show "alert_key x = alert_key y"
    by (simp add: alert_key_def)
next
  assume "alert_key x = alert_key y"
  with assms show "image_path x = image_path y"
    by (simp add: keyed_def alert_key_def)
qed

subsection \<open>The alerts of a session and their evidence paths\<close>

lemma distinct_filter_nth:
  assumes "distinct (map f (filter P xs))" and "i < j" and "j < length xs"
    and "P (xs ! i)" and "P (xs ! j)"
  shows "f (xs ! i) \<noteq> f (xs ! j)"
  using assms
proof (induction xs arbitrary: i j)
  case Nil
  then show ?case by simp
next
  case (Cons x xs)
  from Cons.prems(2) obtain j' where j: "j = Suc j'" by (cases j) auto
  show ?case
  proof (cases i)
    case 0
    from Cons.prems(3,5) j have "xs ! j' \<in> set (filter P xs)" by simp
    then have "f (xs ! j') \<in> f ` set (filter P xs)" by (rule imageI)
    with Cons.prems(1,4) 0 j show ?thesis by auto
  next
    case (Suc i')
    from Cons.prems(1) have "distinct (map f (filter P xs))" by (simp split: if_splits)
    from Cons.IH [OF this, of i' j'] Cons.prems(2-5) Suc j show ?thesis by simp
  qed
qed

lemma frame_alerts_keyed:
  assumes "x \<in> set (frame_alerts a g m f)"
  shows "keyed (arg_evidence_dir a) x \<and> frame_index x = arg_frame_idx a"
proof -
  have k: "keyed (arg_evidence_dir a) (AlertEvent a ty sev (evidence_path a (tag_of ty)) det)"
    if "ty \<in> alert_types" for ty sev det
    using that by (simp add: keyed_def evidence_path_def)
  have types: "''FACE_MISSING'' \<in> alert_types" "''GAZE_AWAY'' \<in> alert_types"
    "''MOUTH_MOVEMENT'' \<in> alert_types" "''MULTI_FACE'' \<in> alert_types"
    "''OBJECT_DETECTED'' \<in> alert_types"
    by (simp_all add: alert_types_def)
  note ks = types [THEN k, unfolded tag_of_simps]
  from assms show ?thesis
    by (auto simp: frame_alerts_def ks split: if_splits)
qed

lemma not_object_AlertEvent [simp]:
  "not_object (AlertEvent a ty sev path det) \<longleftrightarrow> ty \<noteq> ''OBJECT_DETECTED''"
  by (simp add: not_object_def)

lemma alert_key_AlertEvent [simp]:
  "alert_key (AlertEvent a ty sev path det) = (ty, arg_frame_idx a)"
  by (simp add: alert_key_def)

lemma filter_not_object_objects [simp]:
  "filter not_object (map (AlertEvent a ''OBJECT_DETECTED'' sev path) objs) = []"
  by (induction objs) simp_all

lemma frame_alerts_distinct:
  "distinct (map alert_key (filter not_object (frame_alerts a g m f)))"
  by (simp add: frame_alerts_def)

lemma evidence_inv_init: "evidence_inv ed (loop_init self fs)"
  by (simp add: evidence_inv_def loop_init_def)

lemma evidence_inv_step:
  assumes inv: "evidence_inv ed s" and step: "process_frame E sid rate ed raw s = Inr s'"
  shows "evidence_inv ed s'"
proof (cases "frame_idx s mod FRAME_STRIDE (K E) = 0")
  case False
  with process_frame_Inr [OF step] have "s' = s\<lparr>frame_idx := frame_idx s + 1\<rparr>" by simp
  with inv show ?thesis by (auto simp: evidence_inv_def)
next
  case True
  with process_frame_Inr [OF step] obtain a where
    det: "detected E sid rate ed raw s a" and s': "s' = advance s a"
    by auto
  from det have a: "arg_evidence_dir a = ed" "arg_frame_idx a = frame_idx s"
    by (simp_all add: detected_def)
  let ?new = "fst (generate_alerts a (st_self s) (st_fs s))"
  have new: "keyed ed x \<and> frame_index x = frame_idx s" if "x \<in> set ?new" for x
    using that frame_alerts_keyed [of x a] a by (simp add: generate_alerts_eq)
  from inv have old: "keyed ed x \<and> frame_index x < frame_idx s"
    if "x \<in> set (loop_alerts s)" for x
    using that by (simp add: evidence_inv_def)
  from inv have d_old: "distinct (map alert_key (filter not_object (loop_alerts s)))"
    by (simp add: evidence_inv_def)
  have d_new: "distinct (map alert_key (filter not_object ?new))"
    by (simp add: generate_alerts_eq frame_alerts_distinct)
  have apart: "alert_key x \<noteq> alert_key y"
    if "x \<in> set (loop_alerts s)" and "y \<in> set ?new" for x y
    using old [OF that(1)] new [OF that(2)] by (auto simp: alert_key_def)
  have 1: "keyed ed x \<and> frame_index x < frame_idx s'" if "x \<in> set (loop_alerts s')" for x
    using that old [of x] new [of x] by (auto simp: s')
  have 2: "distinct (map alert_key (filter not_object (loop_alerts s')))"
    using d_old d_new apart apart [THEN not_sym] by (auto simp: s')
  from 1 2 show ?thesis by (simp add: evidence_inv_def)
qed

lemma frame_loop_evidence_inv:
  assumes "frame_loop E sid rate ed frames (loop_init self fs) = (r, s)"
  shows "evidence_inv ed s"
  using assms evidence_inv_init
  by (rule frame_loop_invariant) (rule evidence_inv_step)

text \<open>
  C9, as the code has it. Two alerts of one session have the same evidence path exactly when
  both are OBJECT\_DETECTED alerts of the same raw frame (such alerts come from one object
  list with several items, and \<^verbatim>\<open>save_evidence\<close> is given the same tag and frame index for
  each item). All other pairs of alerts have different evidence paths.
\<close>

theorem evidence_paths_shared_only_by_objects_of_a_frame:
  assumes "frame_loop E sid rate ed frames (loop_init self fs) = (r, s)"
    and "i < j" and "j < length (loop_alerts s)"
  shows "image_path (loop_alerts s ! i) = image_path (loop_alerts s ! j) \<longleftrightarrow>
           alert_type (loop_alerts s ! i) = ''OBJECT_DETECTED''
         \<and> alert_type (loop_alerts s ! j) = ''OBJECT_DETECTED''
         \<and> frame_index (loop_alerts s ! i) = frame_index (loop_alerts s ! j)"
proof -
  let ?x = "loop_alerts s ! i" and ?y = "loop_alerts s ! j"
  from assms(2,3) have mem: "?x \<in> set (loop_alerts s)" "?y \<in> set (loop_alerts s)"
    by simp_all
  from frame_loop_evidence_inv [OF assms(1)] mem
  have kx: "keyed ed ?x" and ky: "keyed ed ?y"
    and d: "distinct (map alert_key (filter not_object (loop_alerts s)))"
    by (simp_all add: evidence_inv_def)
  note same = keyed_same_path [OF kx ky]
  show ?thesis
  proof
    assume "image_path ?x = image_path ?y"
    with same have key: "alert_key ?x = alert_key ?y" by simp
    have "\<not> not_object ?x"
    proof
      assume nx: "not_object ?x"
      with key have "not_object ?y" by (simp add: not_object_def alert_key_def)
      from distinct_filter_nth [OF d assms(2,3) nx this] key show False by simp
    qed
    with key show "alert_type ?x = ''OBJECT_DETECTED'' \<and> alert_type ?y = ''OBJECT_DETECTED''
         \<and> frame_index ?x = frame_index ?y"
      by (simp add: not_object_def alert_key_def)
  next
    assume "alert_type ?x = ''OBJECT_DETECTED'' \<and> alert_type ?y = ''OBJECT_DETECTED''
         \<and> frame_index ?x = frame_index ?y"
    then have "alert_key ?x = alert_key ?y" by (simp add: alert_key_def)
    with same show "image_path ?x = image_path ?y" by simp
  qed
qed

text \<open>
  One frame with no face and two detected objects: a FACE\_MISSING alert and two
  OBJECT\_DETECTED alerts, all of raw frame 0.
\<close>

lemma two_objects_run:
  "map alert_type (loop_alerts (snd (frame_loop (demo_env [] 1) ''s1'' 30 ''logs/evidence/s1'' [0]
       (loop_init (demo_analyzer (no_detectors\<lparr>
          face_detector := Some (\<lambda>f. Inr (PyBool False)),
          object_detector := Some (\<lambda>f. Inr (PyList [PyStr ''phone'', PyStr ''book'']))\<rparr>))
        demo_fs))))
     = [''FACE_MISSING'', ''OBJECT_DETECTED'', ''OBJECT_DETECTED'']
   \<and> map frame_index (loop_alerts (snd (frame_loop (demo_env [] 1) ''s1'' 30 ''logs/evidence/s1'' [0]
       (loop_init (demo_analyzer (no_detectors\<lparr>
          face_detector := Some (\<lambda>f. Inr (PyBool False)),
          object_detector := Some (\<lambda>f. Inr (PyList [PyStr ''phone'', PyStr ''book'']))\<rparr>))
        demo_fs))))
     = [0, 0, 0]"
  by (simp add: demo_defs run_defs)

theorem evidence_paths_shared_only_by_objects_of_a_frame_witness:
  "image_path (loop_alerts (snd (frame_loop (demo_env [] 1) ''s1'' 30 ''logs/evidence/s1'' [0]
       (loop_init (demo_analyzer (no_detectors\<lparr>
          face_detector := Some (\<lambda>f. Inr (PyBool False)),
          object_detector := Some (\<lambda>f. Inr (PyList [PyStr ''phone'', PyStr ''book'']))\<rparr>))
        demo_fs))) ! 1)
   = image_path (loop_alerts (snd (frame_loop (demo_env [] 1) ''s1'' 30 ''logs/evidence/s1'' [0]
       (loop_init (demo_analyzer (no_detectors\<lparr>
          face_detector := Some (\<lambda>f. Inr (PyBool False)),
          object_detector := Some (\<lambda>f. Inr (PyList [PyStr ''phone'', PyStr ''book'']))\<rparr>))
        demo_fs))) ! 2)
   \<and> image_path (loop_alerts (snd (frame_loop (demo_env [] 1) ''s1'' 30 ''logs/evidence/s1'' [0]
       (loop_init (demo_analyzer (no_detectors\<lparr>
          face_detector := Some (\<lambda>f. Inr (PyBool False)),
          object_detector := Some (\<lambda>f. Inr (PyList [PyStr ''phone'', PyStr ''book'']))\<rparr>))
        demo_fs))) ! 0)
   \<noteq> image_path (loop_alerts (snd (frame_loop (demo_env [] 1) ''s1'' 30 ''logs/evidence/s1'' [0]
       (loop_init (demo_analyzer (no_detectors\<lparr>
          face_detector := Some (\<lambda>f. Inr (PyBool False)),
          object_detector := Some (\<lambda>f. Inr (PyList [PyStr ''phone'', PyStr ''book'']))\<rparr>))
        demo_fs))) ! 1)"
proof -
  let ?run = "frame_loop (demo_env [] 1) ''s1'' 30 ''logs/evidence/s1'' [0]
       (loop_init (demo_analyzer (no_detectors\<lparr>
          face_detector := Some (\<lambda>f. Inr (PyBool False)),
          object_detector := Some (\<lambda>f. Inr (PyList [PyStr ''phone'', PyStr ''book'']))\<rparr>))
        demo_fs)"
  define al where "al = loop_alerts (snd ?run)"
  have run: "?run = (fst ?run, snd ?run)" by simp
  from two_objects_run have ty: "map alert_type al =
      [''FACE_MISSING'', ''OBJECT_DETECTED'', ''OBJECT_DETECTED'']"
    and ix: "map frame_index al = [0, 0, 0]"
    unfolding al_def by simp_all
  from arg_cong [OF ty, of length] have len: "length al = 3" by simp
  then have j2: "2 < length (loop_alerts (snd ?run))" and j1: "1 < length (loop_alerts (snd ?run))"
    unfolding al_def by simp_all
  have t: "alert_type (al ! 0) = ''FACE_MISSING''" "alert_type (al ! 1) = ''OBJECT_DETECTED''"
    "alert_type (al ! 2) = ''OBJECT_DETECTED''"
    using arg_cong [OF ty, of "\<lambda>xs. xs ! 0"] arg_cong [OF ty, of "\<lambda>xs. xs ! 1"]
      arg_cong [OF ty, of "\<lambda>xs. xs ! 2"] len
    by simp_all
  have f: "frame_index (al ! 1) = 0" "frame_index (al ! 2) = 0"
    using arg_cong [OF ix, of "\<lambda>xs. xs ! 1"] arg_cong [OF ix, of "\<lambda>xs. xs ! 2"] len
    by simp_all
  have lt: "(1::nat) < 2" "(0::nat) < 1" by simp_all
  note objects = evidence_paths_shared_only_by_objects_of_a_frame [OF run lt(1) j2, folded al_def]
  note face = evidence_paths_shared_only_by_objects_of_a_frame [OF run lt(2) j1, folded al_def]
  from objects face t f have
    "image_path (al ! 1) = image_path (al ! 2) \<and> image_path (al ! 0) \<noteq> image_path (al ! 1)"
    by simp
  then show ?thesis unfolding al_def .
qed

text \<open>
  The claim as stated fails: in that session the two OBJECT\_DETECTED alerts are given the
  same evidence path.
\<close>

theorem evidence_path_collision_counterexample:
  "\<not> distinct (map image_path
      (loop_alerts (snd (frame_loop (demo_env [] 1) ''s1'' 30 ''logs/evidence/s1'' [0]
       (loop_init (demo_analyzer (no_detectors\<lparr>
          face_detector := Some (\<lambda>f. Inr (PyBool False)),
          object_detector := Some (\<lambda>f. Inr (PyList [PyStr ''phone'', PyStr ''book'']))\<rparr>))
        demo_fs)))))"
  by (simp add: demo_defs run_defs)

section \<open>Failing detectors\<close>

lemma analyze_video_opened:
  assumes "VideoCapture E video_path = Some cap"
  shows "analyze_video E self fs video_path audio_path session =
     (case session_loop E self fs video_path session cap of
        (Some e, s) \<Rightarrow> (Inl e, st_self s, st_fs s)
      | (None, s) \<Rightarrow>
          finish_session E (session_id_or E session video_path) (frame_rate cap) audio_path s)"
  using assms
  by (simp add: analyze_video_def run_session_def session_loop_def frame_rate_def
      session_evidence_dir_def Let_def split: prod.splits option.splits)








subsection \<open>The detector steps of a processed frame\<close>




















section \<open>The counters across sessions\<close>

lemma finish_session_counter:
  "counter k (fst (snd (finish_session E sid rate audio_path s))) = counter k (st_self s)"
  by (cases k) (simp_all add: finish_session_def Let_def split: option.splits sum.splits)

lemma analyze_video_counter:
  assumes "VideoCapture E video_path = Some cap"
  shows "counter k (fst (snd (analyze_video E self fs video_path audio_path session))) =
           counter k (st_self (snd (session_loop E self fs video_path session cap)))"
proof -
  obtain r s where loop: "session_loop E self fs video_path session cap = (r, s)"
    by (cases "session_loop E self fs video_path session cap")
  show ?thesis
  proof (cases r)
    case None
    with loop analyze_video_opened [OF assms, of self fs audio_path session] show ?thesis
      by (simp add: finish_session_counter)
  next
    case (Some e)
    with loop analyze_video_opened [OF assms, of self fs audio_path session] show ?thesis
      by simp
  qed
qed

text \<open>
  C3, as the code has it. The three counters are set to zero by the constructor and nowhere
  else. So they are zero when the first session of an instance starts, and in every session
  started through \<^verbatim>\<open>analyze_recording\<close>, which builds its own analyzer. \<^verbatim>\<open>analyze_video\<close> does
  not reset them: a session starts from the counters the instance holds and leaves each
  counter as its debounce run over the session's signals ends, for the next session of the
  instance to start from.
\<close>

theorem counters_zeroed_by_constructor_only:
  "counter k (fst (OfflineExamAnalyzer_init det audio_on logs fs)) = 0
   \<and> analyze_recording E det audio_on fs video_path audio_path session logs =
       analyze_video E (fst (OfflineExamAnalyzer_init det audio_on logs fs))
         (snd (OfflineExamAnalyzer_init det audio_on logs fs)) video_path audio_path session
   \<and> (\<forall>cap. VideoCapture E video_path = Some cap \<longrightarrow>
         counter k (fst (snd (analyze_video E self fs0 video_path audio_path session))) =
           debounce_end (threshold k) (counter k self)
             (map (signal k) (submitted (snd (session_loop E self fs0 video_path session cap)))))"
proof -
  have fresh: "counter k (fst (OfflineExamAnalyzer_init det audio_on logs fs)) = 0"
    by (cases k) (simp_all add: OfflineExamAnalyzer_init_def Let_def)
  have wrapper: "analyze_recording E det audio_on fs video_path audio_path session logs =
       analyze_video E (fst (OfflineExamAnalyzer_init det audio_on logs fs))
         (snd (OfflineExamAnalyzer_init det audio_on logs fs)) video_path audio_path session"
    by (simp add: analyze_recording_def split_beta)
  have carried: "counter k (fst (snd (analyze_video E self fs0 video_path audio_path session))) =
           debounce_end (threshold k) (counter k self)
             (map (signal k) (submitted (snd (session_loop E self fs0 video_path session cap))))"
    if opened: "VideoCapture E video_path = Some cap" for cap
  proof -
    have "session_loop E self fs0 video_path session cap =
        (fst (session_loop E self fs0 video_path session cap),
         snd (session_loop E self fs0 video_path session cap))"
      by simp
    then have "fires_inv k self (snd (session_loop E self fs0 video_path session cap))"
      unfolding session_loop_def by (rule frame_loop_fires_inv)
    then show ?thesis
      by (simp add: analyze_video_counter [OF opened] fires_inv_def)
  qed
  from fresh wrapper carried show ?thesis by blast
qed

text \<open>
  Six raw frames, so two processed frames, with an eye tracker that always reports a gaze
  to the left: the session ends with the gaze counter at 2.
\<close>

lemma gaze_left_run:
  "VideoCapture (demo_env [0, 1, 2, 3, 4, 5] 1) ''exam.mp4''
     = Some \<lparr>CAP_PROP_FPS = 30, stream = [0, 1, 2, 3, 4, 5]\<rparr>
   \<and> map (signal GazeAway) (submitted (snd (session_loop (demo_env [0, 1, 2, 3, 4, 5] 1)
        (demo_analyzer (no_detectors\<lparr>
           eye_tracker := Some (\<lambda>f. Inr (PyTuple [PyStr ''left'', PyNone]))\<rparr>))
        demo_fs ''exam.mp4'' (Some ''s1'') \<lparr>CAP_PROP_FPS = 30, stream = [0, 1, 2, 3, 4, 5]\<rparr>)))
     = [True, True]"
  by (simp add: demo_defs run_defs session_loop_def frame_rate_def session_evidence_dir_def)

theorem counters_zeroed_by_constructor_only_witness:
  "gaze_away_frames (demo_analyzer (no_detectors\<lparr>
       eye_tracker := Some (\<lambda>f. Inr (PyTuple [PyStr ''left'', PyNone]))\<rparr>)) = 0
   \<and> gaze_away_frames (fst (snd (analyze_video (demo_env [0, 1, 2, 3, 4, 5] 1)
        (demo_analyzer (no_detectors\<lparr>
           eye_tracker := Some (\<lambda>f. Inr (PyTuple [PyStr ''left'', PyNone]))\<rparr>))
        demo_fs ''exam.mp4'' None (Some ''s1'')))) = 2"
proof -
  let ?E = "demo_env [0, 1, 2, 3, 4, 5] 1"
  let ?det = "no_detectors\<lparr>eye_tracker := Some (\<lambda>f. Inr (PyTuple [PyStr ''left'', PyNone]))\<rparr>"
  let ?cap = "\<lparr>CAP_PROP_FPS = 30, stream = [0, 1, 2, 3, 4, 5::nat]\<rparr>"
  from gaze_left_run have opened: "VideoCapture ?E ''exam.mp4'' = Some ?cap"
    and sigs: "map (signal GazeAway) (submitted (snd (session_loop ?E (demo_analyzer ?det)
        demo_fs ''exam.mp4'' (Some ''s1'') ?cap))) = [True, True]"
    by simp_all
  note inst = counters_zeroed_by_constructor_only
    [where k = GazeAway and det = ?det and audio_on = False and logs = "''logs''"
      and fs = empty_fs and E = ?E and video_path = "''exam.mp4''" and audio_path = None
      and session = "Some ''s1''" and self = "demo_analyzer ?det" and ?fs0.0 = demo_fs]
  from inst [THEN conjunct1]
  have zero: "gaze_away_frames (demo_analyzer ?det) = 0"
    by (simp add: demo_analyzer_def)
  from inst [THEN conjunct2, THEN conjunct2, rule_format, OF opened]
  have "gaze_away_frames (fst (snd (analyze_video ?E (demo_analyzer ?det) demo_fs
      ''exam.mp4'' None (Some ''s1'')))) =
      debounce_end 3 (gaze_away_frames (demo_analyzer ?det)) [True, True]"
    unfolding sigs by simp
  also have "\<dots> = 2"
    unfolding zero by (simp add: debounce_end_def debounce_def)
  finally show ?thesis using zero by simp
qed

text \<open>
  The claim as stated fails: after that session the instance holds a gaze counter of 2, and
  a second session of the same instance, on a recording of a single frame with the gaze to
  the left, starts from it and fires GAZE\_AWAY on its first frame.
\<close>

theorem counters_leak_counterexample:
  "gaze_away_frames (fst (snd (analyze_video (demo_env [0, 1, 2, 3, 4, 5] 1)
        (demo_analyzer (no_detectors\<lparr>
           eye_tracker := Some (\<lambda>f. Inr (PyTuple [PyStr ''left'', PyNone]))\<rparr>))
        demo_fs ''exam.mp4'' None (Some ''s1'')))) = 2
   \<and> (\<exists>summary.
        fst (analyze_video (demo_env [0] 1)
          (fst (snd (analyze_video (demo_env [0, 1, 2, 3, 4, 5] 1)
            (demo_analyzer (no_detectors\<lparr>
               eye_tracker := Some (\<lambda>f. Inr (PyTuple [PyStr ''left'', PyNone]))\<rparr>))
            demo_fs ''exam.mp4'' None (Some ''s1''))))
          (snd (snd (analyze_video (demo_env [0, 1, 2, 3, 4, 5] 1)
            (demo_analyzer (no_detectors\<lparr>
               eye_tracker := Some (\<lambda>f. Inr (PyTuple [PyStr ''left'', PyNone]))\<rparr>))
            demo_fs ''exam.mp4'' None (Some ''s1''))))
          ''exam.mp4'' None (Some ''s2'')) = Inr summary
      \<and> map alert_type (alerts summary) = [''GAZE_AWAY'']
      \<and> map frame_index (alerts summary) = [0])"
  by (simp add: demo_defs run_defs)

end
